theory Spec2Isabelle
  imports Complex_Main "HOL-Library.Word"
begin

section \<open>The statement diagnostics registry\<close>

text \<open>
  A shallow embedding of \<^verbatim>\<open>pkg/sql/stmtdiagnostics/statement_diagnostics.go\<close>.

  Conventions of the embedding.
  \<^item> \<^verbatim>\<open>RequestID\<close> and \<^verbatim>\<open>CollectedInstanceID\<close> are Go \<^verbatim>\<open>int\<close>s that are only
    compared and copied: they are HOL integers.
  \<^item> A \<^verbatim>\<open>time.Time\<close> is an instant, counted in nanoseconds from the zero time, so the
    zero value of the type is \<open>0\<close>; a \<^verbatim>\<open>time.Duration\<close> is a number of nanoseconds.
  \<^item> A \<^verbatim>\<open>float64\<close> probability is a value of the type \<open>float64\<close> below: a finite
    number, an infinity, or NaN.
  \<^item> Every call of \<^verbatim>\<open>timeutil.Now()\<close> is a parameter of the function that makes it.
  \<^item> The order in which a \<^verbatim>\<open>range\<close> loop visits a Go map is chosen by the runtime: it
    is a parameter (a list of keys) of the function that loops.
  \<^item> The mutex \<^verbatim>\<open>r.mu\<close> makes each locked section atomic: a locked section is a
    function from the registry to the registry.
\<close>

subsection \<open>Requests\<close>

type_synonym RequestID = int
type_synonym CollectedInstanceID = int
type_synonym time = int
type_synonym duration = int

text \<open>
  A Go \<^verbatim>\<open>float64\<close>: a finite number (the real number it denotes), an infinity, or
  NaN. The code compares probabilities with \<^verbatim>\<open><\<close> and \<^verbatim>\<open>>\<close>, which are false as soon
  as an operand is NaN (\<open>lt64\<close>; \<^verbatim>\<open>a > b\<close> is \<open>lt64 b a\<close>), and with \<^verbatim>\<open>==\<close> and
  \<^verbatim>\<open>!=\<close> against the constant 0 only, where they agree with equality of the values:
  NaN is not equal to 0.
\<close>

datatype float64 = Finite real | PosInf | NegInf | NaN

fun lt64 :: "float64 \<Rightarrow> float64 \<Rightarrow> bool" where
  "lt64 (Finite x) (Finite y) = (x < y)"
| "lt64 (Finite x) PosInf = True"
| "lt64 NegInf (Finite y) = True"
| "lt64 NegInf PosInf = True"
| "lt64 _ _ = False"

record Request =
  fingerprint :: string
  samplingProbability :: float64
  minExecutionLatency :: duration
  expiresAt :: time

definition IsZero :: "time \<Rightarrow> bool" where
  "IsZero t = (t = 0)"

definition Before :: "time \<Rightarrow> time \<Rightarrow> bool" where
  "Before t u = (t < u)"

definition isExpired :: "Request \<Rightarrow> time \<Rightarrow> bool" where
  "isExpired r now = (\<not> IsZero (expiresAt r) \<and> Before (expiresAt r) now)"

definition isConditional :: "Request \<Rightarrow> bool" where
  "isConditional r = (minExecutionLatency r \<noteq> 0)"

text \<open>The zero value \<^verbatim>\<open>Request{}\<close>.\<close>

definition zeroRequest :: Request where
  "zeroRequest =
     \<lparr>fingerprint = [], samplingProbability = Finite 0, minExecutionLatency = 0,
       expiresAt = 0\<rparr>"

subsection \<open>The in-memory index\<close>

text \<open>
  The fields of \<^verbatim>\<open>Registry.mu\<close>. The counter \<^verbatim>\<open>epoch\<close> is a 64-bit Go \<^verbatim>\<open>int\<close>;
  \<^verbatim>\<open>epoch++\<close> wraps around at the largest value.
\<close>

record Registry =
  requestFingerprints :: "RequestID \<rightharpoonup> Request"
  unconditionalOngoing :: "RequestID \<rightharpoonup> Request"
  epoch :: int

definition MaxInt64 :: int where
  "MaxInt64 = 9223372036854775807"

definition MinInt64 :: int where
  "MinInt64 = - 9223372036854775808"

definition incr :: "int \<Rightarrow> int" where
  "incr n = (if n = MaxInt64 then MinInt64 else n + 1)"

definition NewRegistry :: Registry where
  "NewRegistry = \<lparr>requestFingerprints = Map.empty, unconditionalOngoing = Map.empty, epoch = 0\<rparr>"

definition findRequestLocked :: "time \<Rightarrow> RequestID \<Rightarrow> Registry \<Rightarrow> bool \<times> Registry" where
  "findRequestLocked now requestID r =
     (case requestFingerprints r requestID of
        Some f \<Rightarrow>
          (True,
           if isExpired f now
           then r\<lparr>requestFingerprints := (requestFingerprints r)(requestID := None)\<rparr>
           else r)
      | None \<Rightarrow> (unconditionalOngoing r requestID \<noteq> None, r))"

definition findRequest :: "time \<Rightarrow> RequestID \<Rightarrow> Registry \<Rightarrow> bool \<times> Registry" where
  "findRequest now requestID r = findRequestLocked now requestID r"

definition addRequestInternalLocked ::
  "time \<Rightarrow> RequestID \<Rightarrow> string \<Rightarrow> float64 \<Rightarrow> duration \<Rightarrow> time \<Rightarrow> Registry \<Rightarrow> Registry" where
  "addRequestInternalLocked now rid queryFingerprint prob minLatency expires r =
     (case findRequestLocked now rid r of
        (True, r') \<Rightarrow> r'
      | (False, r') \<Rightarrow>
          r'\<lparr>requestFingerprints := (requestFingerprints r')(rid \<mapsto>
               \<lparr>fingerprint = queryFingerprint, samplingProbability = prob,
                minExecutionLatency = minLatency, expiresAt = expires\<rparr>)\<rparr>)"

definition cancelRequest :: "RequestID \<Rightarrow> Registry \<Rightarrow> Registry" where
  "cancelRequest requestID r =
     r\<lparr>requestFingerprints := (requestFingerprints r)(requestID := None),
       unconditionalOngoing := (unconditionalOngoing r)(requestID := None)\<rparr>"

definition IsExecLatencyConditionMet ::
  "time \<Rightarrow> RequestID \<Rightarrow> Request \<Rightarrow> duration \<Rightarrow> Registry \<Rightarrow> bool \<times> Registry" where
  "IsExecLatencyConditionMet now requestID req execLatency r =
     (if minExecutionLatency req \<le> execLatency then (True, r)
      else if isExpired req now
      then (False, r\<lparr>requestFingerprints := (requestFingerprints r)(requestID := None)\<rparr>)
      else (False, r))"

definition RemoveOngoing :: "time \<Rightarrow> RequestID \<Rightarrow> Request \<Rightarrow> Registry \<Rightarrow> Registry" where
  "RemoveOngoing now requestID req r =
     (if isConditional req
      then (if isExpired req now
            then r\<lparr>requestFingerprints := (requestFingerprints r)(requestID := None)\<rparr>
            else r)
      else r\<lparr>unconditionalOngoing := (unconditionalOngoing r)(requestID := None)\<rparr>)"

subsection \<open>Match and admission\<close>

text \<open>
  The \<^verbatim>\<open>range\<close> loop of \<^verbatim>\<open>ShouldCollectDiagnostics\<close> over \<^verbatim>\<open>requestFingerprints\<close>,
  visiting the keys in the order \<open>order\<close>. It stops at the first entry whose fingerprint
  is the query's: an expired one is deleted and ends the call, another one is the match.
\<close>

datatype scan = NoMatch | ExpiredMatch RequestID | Match RequestID Request

fun scanRequests :: "RequestID list \<Rightarrow> (RequestID \<rightharpoonup> Request) \<Rightarrow> string \<Rightarrow> time \<Rightarrow> scan" where
  "scanRequests [] m fp now = NoMatch"
| "scanRequests (rid # rest) m fp now =
     (case m rid of
        None \<Rightarrow> scanRequests rest m fp now
      | Some f \<Rightarrow>
          if fingerprint f = fp
          then (if isExpired f now then ExpiredMatch rid else Match rid f)
          else scanRequests rest m fp now)"

text \<open>
  \<open>u\<close> is the number that \<^verbatim>\<open>r.mu.rand.Float64()\<close> draws, in \<open>[0, 1)\<close>; Go's \<^verbatim>\<open>||\<close> draws
  it only when the probability is not zero. The result is
  \<^verbatim>\<open>(shouldCollect, reqID, req)\<close> and the registry after the call.
\<close>

definition ShouldCollectDiagnostics ::
  "RequestID list \<Rightarrow> time \<Rightarrow> real \<Rightarrow> string \<Rightarrow> Registry \<Rightarrow> (bool \<times> RequestID \<times> Request) \<times> Registry" where
  "ShouldCollectDiagnostics order now u fp r =
     (if dom (requestFingerprints r) = {} then ((False, 0, zeroRequest), r)
      else
        (case scanRequests order (requestFingerprints r) fp now of
           ExpiredMatch rid \<Rightarrow>
             ((False, 0, zeroRequest),
              r\<lparr>requestFingerprints := (requestFingerprints r)(rid := None)\<rparr>)
         | NoMatch \<Rightarrow> ((False, 0, zeroRequest), r)
         | Match reqID req \<Rightarrow>
             if reqID = 0 then ((False, 0, zeroRequest), r)
             else
               let r' =
                 (if \<not> isConditional req
                  then r\<lparr>unconditionalOngoing := (unconditionalOngoing r)(reqID \<mapsto> req),
                         requestFingerprints := (requestFingerprints r)(reqID := None)\<rparr>
                  else r)
               in if samplingProbability req = Finite 0 \<or> lt64 (Finite u) (samplingProbability req)
                  then ((True, reqID, req), r')
                  else ((False, 0, zeroRequest), r')))"

subsection \<open>The locked section of pollRequests\<close>

text \<open>
  A row of the poll query: \<^verbatim>\<open>id, statement_fingerprint, min_execution_latency,
  expires_at\<close> and, when the cluster version has it, \<^verbatim>\<open>sampling_probability\<close>. A
  \<^verbatim>\<open>NULL\<close> column is \<open>None\<close>: its type assertion fails and the Go variable keeps its
  zero value.
\<close>

record poll_row =
  row_id :: RequestID
  row_fingerprint :: string
  row_min_execution_latency :: "duration option"
  row_expires_at :: "time option"
  row_sampling_probability :: "float64 option"

definition row_prob :: "bool \<Rightarrow> poll_row \<Rightarrow> float64" where
  "row_prob isSamplingProbabilitySupported row =
     (if isSamplingProbabilitySupported
      then (case row_sampling_probability row of Some p \<Rightarrow> p | None \<Rightarrow> Finite 0)
      else Finite 0)"

definition row_latency :: "poll_row \<Rightarrow> duration" where
  "row_latency row = (case row_min_execution_latency row of Some d \<Rightarrow> d | None \<Rightarrow> 0)"

definition row_expires :: "poll_row \<Rightarrow> time" where
  "row_expires row = (case row_expires_at row of Some e \<Rightarrow> e | None \<Rightarrow> 0)"

definition row_request :: "bool \<Rightarrow> poll_row \<Rightarrow> Request" where
  "row_request supported row =
     \<lparr>fingerprint = row_fingerprint row, samplingProbability = row_prob supported row,
      minExecutionLatency = row_latency row, expiresAt = row_expires row\<rparr>"

text \<open>
  The loop over the rows: \<^verbatim>\<open>ids.Add\<close> and \<^verbatim>\<open>addRequestInternalLocked\<close>. The row at
  index \<open>k\<close> is looked up at the clock reading \<open>clock k\<close>.
\<close>

fun addRows ::
  "bool \<Rightarrow> (nat \<Rightarrow> time) \<Rightarrow> nat \<Rightarrow> poll_row list \<Rightarrow> int set \<times> Registry \<Rightarrow> int set \<times> Registry" where
  "addRows supported clock k [] (ids, r) = (ids, r)"
| "addRows supported clock k (row # rows) (ids, r) =
     addRows supported clock (Suc k) rows
       (insert (row_id row) ids,
        addRequestInternalLocked (clock k) (row_id row) (row_fingerprint row)
          (row_prob supported row) (row_latency row) (row_expires row) r)"

text \<open>The loop "remove all other requests", visiting the keys in the order \<open>order\<close>.\<close>

fun removeOthers ::
  "RequestID list \<Rightarrow> int set \<Rightarrow> time \<Rightarrow> (RequestID \<rightharpoonup> Request) \<Rightarrow> (RequestID \<rightharpoonup> Request)" where
  "removeOthers [] ids now m = m"
| "removeOthers (rid # rest) ids now m =
     (case m rid of
        None \<Rightarrow> removeOthers rest ids now m
      | Some req \<Rightarrow>
          removeOthers rest ids now
            (if rid \<notin> ids \<or> isExpired req now then m(rid := None) else m))"

definition pollApply ::
  "bool \<Rightarrow> time \<Rightarrow> (nat \<Rightarrow> time) \<Rightarrow> RequestID list \<Rightarrow> poll_row list \<Rightarrow> Registry \<Rightarrow> Registry" where
  "pollApply supported now clock order rows r =
     (case addRows supported clock 0 rows ({}, r) of
        (ids, r1) \<Rightarrow>
          r1\<lparr>requestFingerprints := removeOthers order ids now (requestFingerprints r1)\<rparr>)"

subsection \<open>The operations on the index, as events\<close>

text \<open>
  Every locked section of the file that can change the index: the local add of
  \<^verbatim>\<open>insertRequestInternal\<close> (\<^verbatim>\<open>epoch++\<close>, then \<^verbatim>\<open>addRequestInternalLocked\<close>),
  \<^verbatim>\<open>findRequest\<close>, \<^verbatim>\<open>cancelRequest\<close>, \<^verbatim>\<open>IsExecLatencyConditionMet\<close>, \<^verbatim>\<open>RemoveOngoing\<close>,
  \<^verbatim>\<open>ShouldCollectDiagnostics\<close> and the locked section that ends \<^verbatim>\<open>pollRequests\<close>.
\<close>

definition insertLocal ::
  "time \<Rightarrow> RequestID \<Rightarrow> string \<Rightarrow> float64 \<Rightarrow> duration \<Rightarrow> time \<Rightarrow> Registry \<Rightarrow> Registry" where
  "insertLocal now reqID fp prob minLatency expires r =
     addRequestInternalLocked now reqID fp prob minLatency expires (r\<lparr>epoch := incr (epoch r)\<rparr>)"

datatype event =
    EvInsert time RequestID string float64 duration time
  | EvFind time RequestID
  | EvCancel RequestID
  | EvLatency time RequestID Request duration
  | EvRemoveOngoing time RequestID Request
  | EvShouldCollect "RequestID list" time real string
  | EvPoll bool time "nat \<Rightarrow> time" "RequestID list" "poll_row list"

fun step :: "Registry \<Rightarrow> event \<Rightarrow> Registry" where
  "step r (EvInsert now reqID fp prob minLatency expires) =
     insertLocal now reqID fp prob minLatency expires r"
| "step r (EvFind now requestID) = snd (findRequest now requestID r)"
| "step r (EvCancel requestID) = cancelRequest requestID r"
| "step r (EvLatency now requestID req execLatency) =
     snd (IsExecLatencyConditionMet now requestID req execLatency r)"
| "step r (EvRemoveOngoing now requestID req) = RemoveOngoing now requestID req r"
| "step r (EvShouldCollect order now u fp) = snd (ShouldCollectDiagnostics order now u fp r)"
| "step r (EvPoll supported now clock order rows) = pollApply supported now clock order rows r"

definition run :: "Registry \<Rightarrow> event list \<Rightarrow> Registry" where
  "run r evs = foldl step r evs"

text \<open>No request id is in both maps.\<close>

definition disjointMaps :: "Registry \<Rightarrow> bool" where
  "disjointMaps r = (dom (requestFingerprints r) \<inter> dom (unconditionalOngoing r) = {})"

subsection \<open>The catalog and the internal executor\<close>

text \<open>
  The registry reaches the system tables through \<^verbatim>\<open>r.ie\<close> (an \<^verbatim>\<open>InternalExecutor\<close>)
  and \<^verbatim>\<open>r.db.Txn\<close>. The statements it runs are in the source; the tables and the
  executor are not, so they are modelled here: a table is the list of its rows in
  insertion order, and SQL's \<^verbatim>\<open>now()\<close> is a parameter \<open>sqlnow\<close>.
\<close>

type_synonym byte = "8 word"

record request_row =
  rq_id :: RequestID
  rq_statement_fingerprint :: string
  rq_requested_at :: time
  rq_sampling_probability :: "float64 option"
  rq_min_execution_latency :: "duration option"
  rq_expires_at :: "time option"
  rq_completed :: bool
  rq_statement_diagnostics_id :: "CollectedInstanceID option"

record diagnostics_row =
  dg_id :: CollectedInstanceID
  dg_statement_fingerprint :: string
  dg_statement :: string
  dg_collected_at :: time
  dg_bundle_chunks :: "int list"
  dg_error :: "string option"

record chunk_row =
  ch_id :: int
  ch_description :: string
  ch_data :: "byte list"

text \<open>
  Modelled from the spec: the three catalog tables (requests, diagnostics, bundle-chunks)
  with the columns of the schemas the registry depends on. The catalog assigns the
  \<^verbatim>\<open>id\<close> of an inserted row; \<open>rowid\<close> is the id it will assign next.
\<close>

record catalog =
  statement_diagnostics_requests :: "request_row list"
  statement_diagnostics :: "diagnostics_row list"
  statement_bundle_chunks :: "chunk_row list"
  rowid :: int

datatype error =
    GossipUnavailable
  | ExecutorError
  | SamplingProbabilityNotSupported
  | MalformedSamplingProbability
  | SamplingProbabilityWithoutLatency
  | FailedToCheckPending
  | PendingRequestExists
  | FailedToInsertRequest
  | NoPendingRequestFound
  | FailedToCheckCompleted
  | FailedToCheckChunk
  | FailedToInsertDiagnostics
  | SliceBoundsOutOfRange

text \<open>
  What the executor does with one statement: it runs it, it returns an error, or it
  returns no row. The source branches on all three (\<^verbatim>\<open>err != nil\<close>, \<^verbatim>\<open>row == nil\<close>).
  An operation takes the outcomes of the statements it will run as a list (its
  \<open>script\<close>); past the end of the list every statement runs.
\<close>

datatype outcome = Runs | Fails | ReturnsNil

datatype 'a result = QueryError | NilRow | Row 'a

definition nextOutcome :: "outcome list \<Rightarrow> outcome" where
  "nextOutcome script = (case script of [] \<Rightarrow> Runs | oc # _ \<Rightarrow> oc)"

text \<open>
  Modelled from the spec: \<^verbatim>\<open>QueryRowEx\<close> of the injected SQL executor,
  \<^verbatim>\<open>(query, txn?, user_override, stmt, args...) \<rightarrow> rows\<close>; \<open>answer\<close> is the first row
  of the statement's result, if it has one.
\<close>

definition QueryRowEx :: "outcome \<Rightarrow> 'a option \<Rightarrow> 'a result" where
  "QueryRowEx oc answer =
     (case oc of
        Fails \<Rightarrow> QueryError
      | ReturnsNil \<Rightarrow> NilRow
      | Runs \<Rightarrow> (case answer of None \<Rightarrow> NilRow | Some row \<Rightarrow> Row row))"

text \<open>
  Modelled from the spec: \<^verbatim>\<open>r.db.Txn\<close>, the catalog transaction. A failure anywhere in
  the closure aborts the whole transaction and leaves the tables as they were. This is
  the transaction of \<^verbatim>\<open>insertRequestInternal\<close>: its closure reads no variable that an
  earlier run of it has assigned, so a transaction that runs it again ends like the one
  that runs it once.
\<close>

definition Txn :: "(catalog \<Rightarrow> error + 'a \<times> catalog) \<Rightarrow> catalog \<Rightarrow> (error + 'a) \<times> catalog" where
  "Txn closure cat =
     (case closure cat of
        Inl e \<Rightarrow> (Inl e, cat)
      | Inr (x, cat') \<Rightarrow> (Inr x, cat'))"

definition notExpiredAt :: "time \<Rightarrow> request_row \<Rightarrow> bool" where
  "notExpiredAt sqlnow row =
     (case rq_expires_at row of None \<Rightarrow> True | Some e \<Rightarrow> e > sqlnow)"

text \<open>
  Modelled from the spec: the statement \<^verbatim>\<open>stmt-diag-check-pending\<close>,
  \<^verbatim>\<open>SELECT count(1) FROM system.statement_diagnostics_requests WHERE completed = false
  AND statement_fingerprint = $1 AND (expires_at IS NULL OR expires_at > now())\<close>.
\<close>

definition stmt_diag_check_pending :: "outcome \<Rightarrow> time \<Rightarrow> string \<Rightarrow> catalog \<Rightarrow> int result" where
  "stmt_diag_check_pending oc sqlnow stmtFingerprint cat =
     QueryRowEx oc (Some (int (length (filter
       (\<lambda>row. rq_completed row = False \<and> rq_statement_fingerprint row = stmtFingerprint \<and>
              notExpiredAt sqlnow row)
       (statement_diagnostics_requests cat)))))"

text \<open>
  Modelled from the spec: the statement \<^verbatim>\<open>stmt-diag-insert-request\<close>,
  \<^verbatim>\<open>INSERT INTO system.statement_diagnostics_requests (statement_fingerprint,
  requested_at [, sampling_probability] [, min_execution_latency] [, expires_at])
  VALUES (...) RETURNING id\<close>. A column the statement leaves out is \<^verbatim>\<open>NULL\<close>, and
  \<^verbatim>\<open>completed\<close> is false.
\<close>

definition stmt_diag_insert_request ::
  "outcome \<Rightarrow> string \<Rightarrow> time \<Rightarrow> float64 option \<Rightarrow> duration option \<Rightarrow> time option \<Rightarrow> catalog
     \<Rightarrow> RequestID result \<times> catalog" where
  "stmt_diag_insert_request oc stmtFingerprint requestedAt prob minLatency expires cat =
     (case oc of
        Fails \<Rightarrow> (QueryError, cat)
      | ReturnsNil \<Rightarrow> (NilRow, cat)
      | Runs \<Rightarrow>
          (Row (rowid cat),
           cat\<lparr>statement_diagnostics_requests := statement_diagnostics_requests cat @
                  [\<lparr>rq_id = rowid cat, rq_statement_fingerprint = stmtFingerprint,
                    rq_requested_at = requestedAt, rq_sampling_probability = prob,
                    rq_min_execution_latency = minLatency, rq_expires_at = expires,
                    rq_completed = False, rq_statement_diagnostics_id = None\<rparr>],
               rowid := rowid cat + 1\<rparr>))"

text \<open>The instant \<^verbatim>\<open>'1970-01-01'\<close>, in nanoseconds from the zero time.\<close>

definition UnixEpoch :: time where
  "UnixEpoch = 62135596800000000000"

definition cancellable :: "time \<Rightarrow> RequestID \<Rightarrow> request_row \<Rightarrow> bool" where
  "cancellable sqlnow requestID row =
     (rq_completed row = False \<and> rq_id row = requestID \<and> notExpiredAt sqlnow row)"

text \<open>
  Modelled from the spec: the statement \<^verbatim>\<open>stmt-diag-cancel-request\<close>,
  \<^verbatim>\<open>UPDATE system.statement_diagnostics_requests SET expires_at = '1970-01-01'
  WHERE completed = false AND id = $1 AND (expires_at IS NULL OR expires_at > now())
  RETURNING id\<close>.
\<close>

definition stmt_diag_cancel_request ::
  "outcome \<Rightarrow> time \<Rightarrow> RequestID \<Rightarrow> catalog \<Rightarrow> RequestID result \<times> catalog" where
  "stmt_diag_cancel_request oc sqlnow requestID cat =
     (case oc of
        Fails \<Rightarrow> (QueryError, cat)
      | ReturnsNil \<Rightarrow> (NilRow, cat)
      | Runs \<Rightarrow>
          (case filter (cancellable sqlnow requestID) (statement_diagnostics_requests cat) of
             [] \<Rightarrow> (NilRow, cat)
           | row # _ \<Rightarrow>
               (Row (rq_id row),
                cat\<lparr>statement_diagnostics_requests :=
                      map (\<lambda>row. if cancellable sqlnow requestID row
                                  then row\<lparr>rq_expires_at := Some UnixEpoch\<rparr> else row)
                        (statement_diagnostics_requests cat)\<rparr>)))"

text \<open>
  Modelled from the spec: the statement \<^verbatim>\<open>stmt-diag-check-completed\<close>,
  \<^verbatim>\<open>SELECT count(1) FROM system.statement_diagnostics_requests WHERE id = $1 AND
  completed = false\<close>.
\<close>

definition stmt_diag_check_completed :: "outcome \<Rightarrow> RequestID \<Rightarrow> catalog \<Rightarrow> int result" where
  "stmt_diag_check_completed oc requestID cat =
     QueryRowEx oc (Some (int (length (filter
       (\<lambda>row. rq_id row = requestID \<and> rq_completed row = False)
       (statement_diagnostics_requests cat)))))"

text \<open>
  Modelled from the spec: the statement \<^verbatim>\<open>stmt-bundle-chunks-insert\<close>,
  \<^verbatim>\<open>INSERT INTO system.statement_bundle_chunks(description, data) VALUES ($1, $2)
  RETURNING id\<close>.
\<close>

definition stmt_bundle_chunks_insert ::
  "outcome \<Rightarrow> string \<Rightarrow> byte list \<Rightarrow> catalog \<Rightarrow> int result \<times> catalog" where
  "stmt_bundle_chunks_insert oc description chunk cat =
     (case oc of
        Fails \<Rightarrow> (QueryError, cat)
      | ReturnsNil \<Rightarrow> (NilRow, cat)
      | Runs \<Rightarrow>
          (Row (rowid cat),
           cat\<lparr>statement_bundle_chunks := statement_bundle_chunks cat @
                  [\<lparr>ch_id = rowid cat, ch_description = description, ch_data = chunk\<rparr>],
               rowid := rowid cat + 1\<rparr>))"

text \<open>
  Modelled from the spec: the statement \<^verbatim>\<open>stmt-diag-insert\<close>,
  \<^verbatim>\<open>INSERT INTO system.statement_diagnostics (statement_fingerprint, statement,
  collected_at, bundle_chunks, error) VALUES ($1, $2, $3, $4, $5) RETURNING id\<close>.
\<close>

definition stmt_diag_insert ::
  "outcome \<Rightarrow> string \<Rightarrow> string \<Rightarrow> time \<Rightarrow> int list \<Rightarrow> string option \<Rightarrow> catalog
     \<Rightarrow> CollectedInstanceID result \<times> catalog" where
  "stmt_diag_insert oc stmtFingerprint stmt collectionTime bundleChunksVal errorVal cat =
     (case oc of
        Fails \<Rightarrow> (QueryError, cat)
      | ReturnsNil \<Rightarrow> (NilRow, cat)
      | Runs \<Rightarrow>
          (Row (rowid cat),
           cat\<lparr>statement_diagnostics := statement_diagnostics cat @
                  [\<lparr>dg_id = rowid cat, dg_statement_fingerprint = stmtFingerprint,
                    dg_statement = stmt, dg_collected_at = collectionTime,
                    dg_bundle_chunks = bundleChunksVal, dg_error = errorVal\<rparr>],
               rowid := rowid cat + 1\<rparr>))"

text \<open>
  Modelled from the spec: the statement \<^verbatim>\<open>stmt-diag-mark-completed\<close>, run with
  \<^verbatim>\<open>ExecEx\<close>: \<^verbatim>\<open>UPDATE system.statement_diagnostics_requests SET completed = true,
  statement_diagnostics_id = $1 WHERE id = $2\<close>.
\<close>

definition stmt_diag_mark_completed ::
  "outcome \<Rightarrow> CollectedInstanceID \<Rightarrow> RequestID \<Rightarrow> catalog \<Rightarrow> error + catalog" where
  "stmt_diag_mark_completed oc diagID requestID cat =
     (case oc of
        Fails \<Rightarrow> Inl ExecutorError
      | _ \<Rightarrow>
          Inr (cat\<lparr>statement_diagnostics_requests :=
                 map (\<lambda>row. if rq_id row = requestID
                             then row\<lparr>rq_completed := True,
                                      rq_statement_diagnostics_id := Some diagID\<rparr>
                             else row)
                   (statement_diagnostics_requests cat)\<rparr>))"

text \<open>
  Modelled from the spec: the statement \<^verbatim>\<open>stmt-diag-add-completed\<close>, run with
  \<^verbatim>\<open>ExecEx\<close>: \<^verbatim>\<open>INSERT INTO system.statement_diagnostics_requests (completed,
  statement_fingerprint, statement_diagnostics_id, requested_at) VALUES (true, $1, $2, $3)\<close>.
\<close>

definition stmt_diag_add_completed ::
  "outcome \<Rightarrow> string \<Rightarrow> CollectedInstanceID \<Rightarrow> time \<Rightarrow> catalog \<Rightarrow> error + catalog" where
  "stmt_diag_add_completed oc stmtFingerprint diagID collectionTime cat =
     (case oc of
        Fails \<Rightarrow> Inl ExecutorError
      | _ \<Rightarrow>
          Inr (cat\<lparr>statement_diagnostics_requests := statement_diagnostics_requests cat @
                      [\<lparr>rq_id = rowid cat, rq_statement_fingerprint = stmtFingerprint,
                        rq_requested_at = collectionTime, rq_sampling_probability = None,
                        rq_min_execution_latency = None, rq_expires_at = None,
                        rq_completed = True, rq_statement_diagnostics_id = Some diagID\<rparr>],
                   rowid := rowid cat + 1\<rparr>))"

text \<open>
  Modelled from the spec: the statement \<^verbatim>\<open>stmt-diag-poll\<close>, run with
  \<^verbatim>\<open>QueryIteratorEx\<close>: \<^verbatim>\<open>SELECT id, statement_fingerprint, min_execution_latency,
  expires_at [, sampling_probability] FROM system.statement_diagnostics_requests WHERE
  completed = false AND (expires_at IS NULL OR expires_at > now())\<close>. An error of the
  query or of the iteration is \<open>QueryError\<close>.
\<close>

definition stmt_diag_poll :: "outcome \<Rightarrow> bool \<Rightarrow> time \<Rightarrow> catalog \<Rightarrow> poll_row list result" where
  "stmt_diag_poll oc supported sqlnow cat =
     (case oc of
        Fails \<Rightarrow> QueryError
      | _ \<Rightarrow>
          Row (map (\<lambda>row. \<lparr>row_id = rq_id row, row_fingerprint = rq_statement_fingerprint row,
                          row_min_execution_latency = rq_min_execution_latency row,
                          row_expires_at = rq_expires_at row,
                          row_sampling_probability =
                            (if supported then rq_sampling_probability row else None)\<rparr>)
                 (filter (\<lambda>row. rq_completed row = False \<and> notExpiredAt sqlnow row)
                    (statement_diagnostics_requests cat))))"

subsection \<open>A node: registry, catalog and gossip\<close>

datatype gossip_key =
    KeyGossipStatementDiagnosticsRequest
  | KeyGossipStatementDiagnosticsRequestCancellation

text \<open>
  \<open>gossiped\<close> is the list of the infos the node has added to gossip, oldest first.
\<close>

record node =
  registry :: Registry
  db :: catalog
  gossiped :: "(gossip_key \<times> byte list) list"

text \<open>
  What the registry reads from its collaborators: whether \<^verbatim>\<open>r.gossip.OptionalErr\<close>
  returns a gossip handle, whether \<^verbatim>\<open>g.AddInfo\<close> fails, whether the cluster version
  \<^verbatim>\<open>SampledStmtDiagReqs\<close> is active, and the setting
  \<^verbatim>\<open>sql.stmt_diagnostics.bundle_chunk_size\<close>.
\<close>

record settings =
  gossipAvailable :: bool
  addInfoFails :: bool
  sampledStmtDiagReqs :: bool
  bundleChunkSize :: int

text \<open>\<^verbatim>\<open>binary.LittleEndian.PutUint64(buf, uint64(reqID))\<close> on a buffer of 8 bytes.\<close>

definition PutUint64 :: "64 word \<Rightarrow> byte list" where
  "PutUint64 v = map (\<lambda>i. ucast (drop_bit (8 * i) v)) [0..<8]"

definition AddInfo :: "settings \<Rightarrow> gossip_key \<Rightarrow> byte list \<Rightarrow> node \<Rightarrow> node" where
  "AddInfo env key buf s =
     (if addInfoFails env then s else s\<lparr>gossiped := gossiped s @ [(key, buf)]\<rparr>)"

subsection \<open>InsertRequest and CancelRequest\<close>

text \<open>
  The closure that \<^verbatim>\<open>insertRequestInternal\<close> runs in a transaction; \<open>now\<close> is its
  \<^verbatim>\<open>timeutil.Now()\<close>. It returns \<^verbatim>\<open>reqID\<close> and \<^verbatim>\<open>expiresAt\<close>.
\<close>

definition insertRequestTxn ::
  "outcome list \<Rightarrow> time \<Rightarrow> time \<Rightarrow> string \<Rightarrow> float64 \<Rightarrow> duration \<Rightarrow> duration \<Rightarrow> catalog
     \<Rightarrow> error + (RequestID \<times> time) \<times> catalog" where
  "insertRequestTxn script sqlnow now stmtFingerprint prob minLatency expiresAfter cat =
     (case stmt_diag_check_pending (nextOutcome script) sqlnow stmtFingerprint cat of
        QueryError \<Rightarrow> Inl ExecutorError
      | NilRow \<Rightarrow> Inl FailedToCheckPending
      | Row count \<Rightarrow>
          if count \<noteq> 0 then Inl PendingRequestExists
          else
            let expires = (if expiresAfter \<noteq> 0 then now + expiresAfter else 0) in
            (case stmt_diag_insert_request (nextOutcome (tl script)) stmtFingerprint now
                    (if prob \<noteq> Finite 0 then Some prob else None)
                    (if minLatency \<noteq> 0 then Some minLatency else None)
                    (if expiresAfter \<noteq> 0 then Some expires else None) cat of
               (QueryError, _) \<Rightarrow> Inl ExecutorError
             | (NilRow, _) \<Rightarrow> Inl FailedToInsertRequest
             | (Row reqID, cat') \<Rightarrow> Inr ((reqID, expires), cat')))"

text \<open>
  \<open>now\<close> is the clock reading of the transaction and \<open>now'\<close> the one of
  \<^verbatim>\<open>findRequestLocked\<close> in the locked section.
\<close>

definition insertRequestInternal ::
  "settings \<Rightarrow> outcome list \<Rightarrow> time \<Rightarrow> time \<Rightarrow> time \<Rightarrow> string \<Rightarrow> float64 \<Rightarrow> duration \<Rightarrow> duration
     \<Rightarrow> node \<Rightarrow> (error + RequestID) \<times> node" where
  "insertRequestInternal env script sqlnow now now' stmtFingerprint prob minLatency expiresAfter s =
     (if \<not> gossipAvailable env then (Inl GossipUnavailable, s)
      else if \<not> sampledStmtDiagReqs env \<and> prob \<noteq> Finite 0
      then (Inl SamplingProbabilityNotSupported, s)
      else if lt64 prob (Finite 0) \<or> lt64 (Finite 1) prob
      then (Inl MalformedSamplingProbability, s)
      else if prob \<noteq> Finite 0 \<and> minLatency = 0
      then (Inl SamplingProbabilityWithoutLatency, s)
      else
        (case Txn (insertRequestTxn script sqlnow now stmtFingerprint prob minLatency expiresAfter)
                (db s) of
           (Inl e, cat) \<Rightarrow> (Inl e, s\<lparr>db := cat\<rparr>)
         | (Inr (reqID, expires), cat) \<Rightarrow>
             (Inr reqID,
              AddInfo env KeyGossipStatementDiagnosticsRequest (PutUint64 (word_of_int reqID))
                (s\<lparr>db := cat,
                   registry :=
                     insertLocal now' reqID stmtFingerprint prob minLatency expires (registry s)\<rparr>))))"

definition InsertRequest ::
  "settings \<Rightarrow> outcome list \<Rightarrow> time \<Rightarrow> time \<Rightarrow> time \<Rightarrow> string \<Rightarrow> float64 \<Rightarrow> duration \<Rightarrow> duration
     \<Rightarrow> node \<Rightarrow> error option \<times> node" where
  "InsertRequest env script sqlnow now now' stmtFingerprint prob minLatency expiresAfter s =
     (case insertRequestInternal env script sqlnow now now' stmtFingerprint prob minLatency
             expiresAfter s of
        (Inl e, s') \<Rightarrow> (Some e, s')
      | (Inr _, s') \<Rightarrow> (None, s'))"

definition CancelRequest ::
  "settings \<Rightarrow> outcome list \<Rightarrow> time \<Rightarrow> int \<Rightarrow> node \<Rightarrow> error option \<times> node" where
  "CancelRequest env script sqlnow requestID s =
     (if \<not> gossipAvailable env then (Some GossipUnavailable, s)
      else
        (case stmt_diag_cancel_request (nextOutcome script) sqlnow requestID (db s) of
           (QueryError, _) \<Rightarrow> (Some ExecutorError, s)
         | (NilRow, _) \<Rightarrow> (Some NoPendingRequestFound, s)
         | (Row _, cat) \<Rightarrow>
             (None,
              AddInfo env KeyGossipStatementDiagnosticsRequestCancellation
                (PutUint64 (word_of_int requestID))
                (s\<lparr>db := cat, registry := cancelRequest requestID (registry s)\<rparr>))))"

subsection \<open>InsertStatementDiagnostics\<close>

text \<open>
  The closure that \<^verbatim>\<open>InsertStatementDiagnostics\<close> passes to \<^verbatim>\<open>r.db.Txn\<close> assigns two
  variables of the enclosing function: the parameter \<^verbatim>\<open>bundle\<close>
  (\<^verbatim>\<open>bundle = bundle[len(chunk):]\<close>) and \<^verbatim>\<open>diagID\<close>. They outlive a run of the closure,
  so a run is a function of their values and returns their values.
\<close>

record captured =
  cap_bundle :: "byte list"
  cap_diagID :: CollectedInstanceID

definition chunkOf :: "int \<Rightarrow> byte list \<Rightarrow> byte list" where
  "chunkOf chunkSize bundle =
     (if int (length bundle) > chunkSize then take (nat chunkSize) bundle else bundle)"

text \<open>
  The loop \<^verbatim>\<open>for len(bundle) > 0\<close>. Slicing \<^verbatim>\<open>chunk[:chunkSize]\<close> with a negative bound
  panics; with \<^verbatim>\<open>chunkSize\<close> zero the loop never shortens the bundle, so it need not
  return: the result \<open>None\<close> is a call that does not return.
  \<^verbatim>\<open>bundleChunksVal.Append\<close> adds the chunk id at the end of the array. The loop
  shortens \<^verbatim>\<open>bundle\<close> before it inserts the chunk: when it leaves with an error, the
  variable holds what follows the chunk (the second component of the error result); when
  it leaves normally, the variable is empty.
\<close>

partial_function (option) insertChunks ::
  "int \<Rightarrow> outcome list \<Rightarrow> byte list \<Rightarrow> int list \<Rightarrow> catalog
     \<Rightarrow> (error \<times> byte list + int list \<times> outcome list \<times> catalog) option" where
  "insertChunks chunkSize script bundle bundleChunksVal cat =
     (if length bundle > 0
      then
        (if int (length bundle) > chunkSize \<and> chunkSize < 0
         then Some (Inl (SliceBoundsOutOfRange, bundle))
         else
           (case stmt_bundle_chunks_insert (nextOutcome script) ''statement diagnostics bundle''
                   (chunkOf chunkSize bundle) cat of
              (QueryError, _) \<Rightarrow>
                Some (Inl (ExecutorError, drop (length (chunkOf chunkSize bundle)) bundle))
            | (NilRow, _) \<Rightarrow>
                Some (Inl (FailedToCheckChunk, drop (length (chunkOf chunkSize bundle)) bundle))
            | (Row chunkID, cat') \<Rightarrow>
                insertChunks chunkSize (tl script)
                  (drop (length (chunkOf chunkSize bundle)) bundle)
                  (bundleChunksVal @ [chunkID]) cat'))
      else Some (Inr (bundleChunksVal, script, cat)))"

text \<open>
  The closure from "Generate the values that will be inserted" on: the chunks, the
  diagnostics row, and the request row that is marked or added as completed. The result
  is the error and the captured variables, or the captured variables and the catalog
  with the writes of the run.
\<close>

definition writeDiagnostics ::
  "int \<Rightarrow> outcome list \<Rightarrow> time \<Rightarrow> RequestID \<Rightarrow> string \<Rightarrow> string \<Rightarrow> string option
     \<Rightarrow> captured \<Rightarrow> catalog \<Rightarrow> (error \<times> captured + captured \<times> catalog) option" where
  "writeDiagnostics chunkSize script collectionTime requestID stmtFingerprint stmt collectionErr
       cap cat =
     (case insertChunks chunkSize script (cap_bundle cap) [] cat of
        None \<Rightarrow> None
      | Some (Inl (e, rest)) \<Rightarrow> Some (Inl (e, cap\<lparr>cap_bundle := rest\<rparr>))
      | Some (Inr (bundleChunksVal, script', cat1)) \<Rightarrow>
          (case stmt_diag_insert (nextOutcome script') stmtFingerprint stmt collectionTime
                  bundleChunksVal collectionErr cat1 of
             (QueryError, _) \<Rightarrow> Some (Inl (ExecutorError, cap\<lparr>cap_bundle := []\<rparr>))
           | (NilRow, _) \<Rightarrow> Some (Inl (FailedToInsertDiagnostics, cap\<lparr>cap_bundle := []\<rparr>))
           | (Row diagID, cat2) \<Rightarrow>
               (case (if requestID \<noteq> 0
                      then stmt_diag_mark_completed (nextOutcome (tl script')) diagID requestID cat2
                      else stmt_diag_add_completed (nextOutcome (tl script')) stmtFingerprint
                             diagID collectionTime cat2) of
                  Inl e \<Rightarrow> Some (Inl (e, \<lparr>cap_bundle = [], cap_diagID = diagID\<rparr>))
                | Inr cat3 \<Rightarrow> Some (Inr (\<lparr>cap_bundle = [], cap_diagID = diagID\<rparr>, cat3)))))"

text \<open>
  One run of the whole closure. When the request is already completed it returns
  \<^verbatim>\<open>nil\<close> and has assigned neither variable.
\<close>

definition insertDiagnosticsTxn ::
  "int \<Rightarrow> outcome list \<Rightarrow> time \<Rightarrow> RequestID \<Rightarrow> string \<Rightarrow> string \<Rightarrow> string option
     \<Rightarrow> captured \<Rightarrow> catalog \<Rightarrow> (error \<times> captured + captured \<times> catalog) option" where
  "insertDiagnosticsTxn chunkSize script collectionTime requestID stmtFingerprint stmt
       collectionErr cap cat =
     (if requestID \<noteq> 0
      then
        (case stmt_diag_check_completed (nextOutcome script) requestID cat of
           QueryError \<Rightarrow> Some (Inl (ExecutorError, cap))
         | NilRow \<Rightarrow> Some (Inl (FailedToCheckCompleted, cap))
         | Row cnt \<Rightarrow>
             if cnt = 0 then Some (Inr (cap, cat))
             else writeDiagnostics chunkSize (tl script) collectionTime requestID stmtFingerprint
                    stmt collectionErr cap cat)
      else writeDiagnostics chunkSize script collectionTime requestID stmtFingerprint stmt
             collectionErr cap cat)"

text \<open>
  Modelled from the spec: \<^verbatim>\<open>r.db.Txn\<close> for a closure that assigns variables of its
  caller. As in \<open>Txn\<close>, a failure anywhere in the closure aborts the whole transaction and
  leaves the tables as they were. In addition the transaction may restart: when a
  statement or the commit meets a retryable error, \<^verbatim>\<open>kv.DB.Txn\<close> discards the writes
  of the run and runs the closure again. The variables that the closure has assigned
  keep their values from one run to the next. A restart is given by the place of the
  retryable error in the run: the statement with that number (0 is the first statement
  of the run; the statements before it run), or the commit (every statement of the run
  having run).
\<close>

datatype restart = AtStatement nat | AtCommit

definition restartScript :: "restart \<Rightarrow> outcome list" where
  "restartScript rs =
     (case rs of AtStatement k \<Rightarrow> replicate k Runs @ [Fails] | AtCommit \<Rightarrow> [])"

text \<open>
  \<open>restarts\<close> lists the restarts of the transaction, in order, and \<open>script\<close> is the
  script of the run that follows the last restart. In a run that is restarted, the error
  of the executor is the retryable one; a run that ends before it reaches the statement
  of the restart is restarted at its commit. Every run starts from the tables as they
  are when the call starts.
\<close>

fun TxnRestarts ::
  "(outcome list \<Rightarrow> captured \<Rightarrow> catalog \<Rightarrow> (error \<times> captured + captured \<times> catalog) option)
     \<Rightarrow> restart list \<Rightarrow> outcome list \<Rightarrow> captured \<Rightarrow> catalog
     \<Rightarrow> ((error + captured) \<times> catalog) option" where
  "TxnRestarts closure [] script cap cat =
     (case closure script cap cat of
        None \<Rightarrow> None
      | Some (Inl (e, cap')) \<Rightarrow> Some (Inl e, cat)
      | Some (Inr (cap', cat')) \<Rightarrow> Some (Inr cap', cat'))"
| "TxnRestarts closure (rs # rest) script cap cat =
     (case closure (restartScript rs) cap cat of
        None \<Rightarrow> None
      | Some (Inl (e, cap')) \<Rightarrow>
          if e = ExecutorError then TxnRestarts closure rest script cap' cat
          else Some (Inl e, cat)
      | Some (Inr (cap', cat')) \<Rightarrow> TxnRestarts closure rest script cap' cat)"

text \<open>
  \<^verbatim>\<open>InsertStatementDiagnostics\<close>: the closure in a transaction, with \<^verbatim>\<open>diagID\<close>
  declared (zero) before it. The result is the pair \<^verbatim>\<open>(diagID, err)\<close>, as \<open>Inr diagID\<close>
  or \<open>Inl err\<close>, and the catalog after the call. \<open>collectionTime\<close> is the clock reading
  of the run that is not restarted (the rows that a restarted run writes are discarded,
  and its clock reading with them).
\<close>

definition InsertStatementDiagnostics ::
  "settings \<Rightarrow> restart list \<Rightarrow> outcome list \<Rightarrow> time \<Rightarrow> RequestID \<Rightarrow> string \<Rightarrow> string
     \<Rightarrow> byte list \<Rightarrow> string option \<Rightarrow> catalog
     \<Rightarrow> ((error + CollectedInstanceID) \<times> catalog) option" where
  "InsertStatementDiagnostics env restarts script collectionTime requestID stmtFingerprint stmt
       bundle collectionErr cat =
     (case TxnRestarts
             (\<lambda>sc. insertDiagnosticsTxn (bundleChunkSize env) sc collectionTime requestID
                      stmtFingerprint stmt collectionErr)
             restarts script \<lparr>cap_bundle = bundle, cap_diagID = 0\<rparr> cat of
        None \<Rightarrow> None
      | Some (Inl e, cat') \<Rightarrow> Some (Inl e, cat')
      | Some (Inr cap, cat') \<Rightarrow> Some (Inr (cap_diagID cap), cat'))"

subsection \<open>pollRequests\<close>

text \<open>
  One turn of the loop "until we run the query without straddling an epoch increment":
  the table that the query reads, SQL's \<^verbatim>\<open>now()\<close>, what the executor does, and the
  locked sections of other goroutines that run while the poller does not hold the mutex,
  from the moment it has read the epoch to the moment it reads the epoch of the next
  turn (or takes the mutex for good).
\<close>

record attempt =
  at_catalog :: catalog
  at_sqlnow :: time
  at_outcome :: outcome
  at_concurrent :: "event list"

text \<open>
  The loop. It returns the rows and the registry as it is when the mutex is taken for
  good. The list holds the turns that the environment provides; a poll that needs more
  turns than that has not returned (\<open>None\<close>).
\<close>

fun pollRead ::
  "bool \<Rightarrow> attempt list \<Rightarrow> Registry \<Rightarrow> (error + poll_row list \<times> Registry) option" where
  "pollRead supported [] r = None"
| "pollRead supported (a # rest) r =
     (case stmt_diag_poll (at_outcome a) supported (at_sqlnow a) (at_catalog a) of
        Row rows \<Rightarrow>
          if epoch (run r (at_concurrent a)) \<noteq> epoch r
          then pollRead supported rest (run r (at_concurrent a))
          else Some (Inr (rows, run r (at_concurrent a)))
      | _ \<Rightarrow> Some (Inl ExecutorError))"

definition pollRequests ::
  "bool \<Rightarrow> time \<Rightarrow> (nat \<Rightarrow> time) \<Rightarrow> RequestID list \<Rightarrow> attempt list \<Rightarrow> Registry
     \<Rightarrow> (error + Registry) option" where
  "pollRequests supported now clock order attempts r =
     (case pollRead supported attempts r of
        None \<Rightarrow> None
      | Some (Inl e) \<Rightarrow> Some (Inl e)
      | Some (Inr (rows, r1)) \<Rightarrow> Some (Inr (pollApply supported now clock order rows r1)))"

subsection \<open>Later calls for the fingerprint of an admitted request\<close>

text \<open>
  An operation adds another request for the fingerprint \<open>fp\<close> when it is a local insert
  or a poll that brings a request with that fingerprint and an id other than \<open>rid\<close>.
\<close>

fun addsOther :: "string \<Rightarrow> RequestID \<Rightarrow> event \<Rightarrow> bool" where
  "addsOther fp rid (EvInsert now reqID fp' prob minLatency expires) =
     (fp' = fp \<and> reqID \<noteq> rid)"
| "addsOther fp rid (EvPoll supported now clock order rows) =
     list_ex (\<lambda>row. row_fingerprint row = fp \<and> row_id row \<noteq> rid) rows"
| "addsOther fp rid ev = False"

text \<open>The entry \<open>rid\<close> is in the ongoing map before and after each of the operations.\<close>

fun staysOngoing :: "RequestID \<Rightarrow> Registry \<Rightarrow> event list \<Rightarrow> bool" where
  "staysOngoing rid r [] = (unconditionalOngoing r rid \<noteq> None)"
| "staysOngoing rid r (ev # evs) =
     (unconditionalOngoing r rid \<noteq> None \<and> staysOngoing rid (step r ev) evs)"

text \<open>No pending request has the fingerprint \<open>fp\<close>.\<close>

definition noPending :: "string \<Rightarrow> Registry \<Rightarrow> bool" where
  "noPending fp r =
     (\<forall>rid req. requestFingerprints r rid = Some req \<longrightarrow> fingerprint req \<noteq> fp)"

text \<open>The operation is the local add of an insert, which runs \<^verbatim>\<open>epoch++\<close>.\<close>

fun isInsert :: "event \<Rightarrow> bool" where
  "isInsert (EvInsert now reqID fp prob minLatency expires) = True"
| "isInsert ev = False"

subsection \<open>Auxiliary notions for the catalog and the poll\<close>

text \<open>The catalog after a chunk row, and after a diagnostics row, has been inserted.\<close>

definition withChunk :: "byte list \<Rightarrow> catalog \<Rightarrow> catalog" where
  "withChunk chunk cat =
     cat\<lparr>statement_bundle_chunks := statement_bundle_chunks cat @
            [\<lparr>ch_id = rowid cat, ch_description = ''statement diagnostics bundle'', ch_data = chunk\<rparr>],
         rowid := rowid cat + 1\<rparr>"

definition withDiagnostics :: "string \<Rightarrow> string \<Rightarrow> time \<Rightarrow> int list \<Rightarrow> string option \<Rightarrow> catalog \<Rightarrow> catalog" where
  "withDiagnostics stmtFingerprint stmt collectionTime ids errorVal cat =
     cat\<lparr>statement_diagnostics := statement_diagnostics cat @
            [\<lparr>dg_id = rowid cat, dg_statement_fingerprint = stmtFingerprint,
              dg_statement = stmt, dg_collected_at = collectionTime,
              dg_bundle_chunks = ids, dg_error = errorVal\<rparr>],
         rowid := rowid cat + 1\<rparr>"

text \<open>The rows of the requests table with the given id and \<^verbatim>\<open>completed = false\<close>.\<close>

definition uncompleted :: "RequestID \<Rightarrow> catalog \<Rightarrow> request_row list" where
  "uncompleted requestID cat =
     filter (\<lambda>row. rq_id row = requestID \<and> rq_completed row = False)
       (statement_diagnostics_requests cat)"

text \<open>The requests table after the request is marked, or added, as completed.\<close>

definition markCompleted :: "CollectedInstanceID \<Rightarrow> RequestID \<Rightarrow> catalog \<Rightarrow> catalog" where
  "markCompleted diagID requestID cat =
     cat\<lparr>statement_diagnostics_requests :=
           map (\<lambda>row. if rq_id row = requestID
                       then row\<lparr>rq_completed := True, rq_statement_diagnostics_id := Some diagID\<rparr>
                       else row)
             (statement_diagnostics_requests cat)\<rparr>"

definition addCompleted :: "string \<Rightarrow> CollectedInstanceID \<Rightarrow> time \<Rightarrow> catalog \<Rightarrow> catalog" where
  "addCompleted stmtFingerprint diagID collectionTime cat =
     cat\<lparr>statement_diagnostics_requests := statement_diagnostics_requests cat @
           [\<lparr>rq_id = rowid cat, rq_statement_fingerprint = stmtFingerprint,
             rq_requested_at = collectionTime, rq_sampling_probability = None,
             rq_min_execution_latency = None, rq_expires_at = None,
             rq_completed = True, rq_statement_diagnostics_id = Some diagID\<rparr>],
         rowid := rowid cat + 1\<rparr>"

definition completeRequest ::
  "RequestID \<Rightarrow> string \<Rightarrow> CollectedInstanceID \<Rightarrow> time \<Rightarrow> catalog \<Rightarrow> catalog" where
  "completeRequest requestID fp diagID t cat =
     (if requestID \<noteq> 0 then markCompleted diagID requestID cat else addCompleted fp diagID t cat)"

text \<open>
  What the loop "remove all other requests" leaves of the entry \<open>rid\<close> of a map, and the
  entry that \<^verbatim>\<open>addRequestInternalLocked\<close> leaves under the id of a row.
\<close>

definition kept :: "int set \<Rightarrow> time \<Rightarrow> (RequestID \<rightharpoonup> Request) \<Rightarrow> RequestID \<Rightarrow> Request option" where
  "kept ids now m rid =
     (case m rid of
        None \<Rightarrow> None
      | Some req \<Rightarrow> if rid \<notin> ids \<or> isExpired req now then None else Some req)"

definition added :: "bool \<Rightarrow> time \<Rightarrow> poll_row \<Rightarrow> Registry \<Rightarrow> Request option" where
  "added supported now row r =
     (case requestFingerprints r (row_id row) of
        Some f \<Rightarrow> if isExpired f now then None else Some f
      | None \<Rightarrow>
          if unconditionalOngoing r (row_id row) \<noteq> None then None
          else Some (row_request supported row))"

subsection \<open>Concrete requests and registries for the examples\<close>

definition reqA :: Request where
  "reqA = \<lparr>fingerprint = ''SELECT _'', samplingProbability = Finite (1 / 2),
            minExecutionLatency = 0, expiresAt = 0\<rparr>"

definition reqB :: Request where
  "reqB = \<lparr>fingerprint = ''SELECT _'', samplingProbability = Finite 0,
            minExecutionLatency = 0, expiresAt = 0\<rparr>"

definition reqC :: Request where
  "reqC = \<lparr>fingerprint = ''UPDATE _'', samplingProbability = Finite 0,
            minExecutionLatency = 5, expiresAt = 50\<rparr>"

definition regA :: Registry where
  "regA = \<lparr>requestFingerprints = [7 \<mapsto> reqA], unconditionalOngoing = Map.empty, epoch = 0\<rparr>"

definition regB :: Registry where
  "regB = \<lparr>requestFingerprints = [1 \<mapsto> reqB, 3 \<mapsto> reqC],
            unconditionalOngoing = [2 \<mapsto> reqA], epoch = 4\<rparr>"

text \<open>A clock that reads 20 at every lookup of a poll.\<close>

definition clock20 :: "nat \<Rightarrow> time" where
  "clock20 k = 20"

definition regC :: Registry where
  "regC = \<lparr>requestFingerprints = [1 \<mapsto> reqB], unconditionalOngoing = Map.empty, epoch = 0\<rparr>"

definition rowOf :: "RequestID \<Rightarrow> poll_row" where
  "rowOf rid = \<lparr>row_id = rid, row_fingerprint = ''SELECT _'', row_min_execution_latency = None,
                row_expires_at = None, row_sampling_probability = None\<rparr>"

definition regC1 :: Registry where
  "regC1 = \<lparr>requestFingerprints = Map.empty, unconditionalOngoing = [1 \<mapsto> reqB], epoch = 0\<rparr>"

definition regC2 :: Registry where
  "regC2 = \<lparr>requestFingerprints = [2 \<mapsto> reqB], unconditionalOngoing = [1 \<mapsto> reqB], epoch = 0\<rparr>"

text \<open>
  A requests table in which request 1 has been completed (by another node) and request
  2, for the same fingerprint, has been inserted since.
\<close>

definition requestRow :: "RequestID \<Rightarrow> bool \<Rightarrow> request_row" where
  "requestRow rid done =
     \<lparr>rq_id = rid, rq_statement_fingerprint = ''SELECT _'', rq_requested_at = 1,
      rq_sampling_probability = None, rq_min_execution_latency = None, rq_expires_at = None,
      rq_completed = done,
      rq_statement_diagnostics_id = (if done then Some 100 else None)\<rparr>"

definition catC :: catalog where
  "catC = \<lparr>statement_diagnostics_requests = [requestRow 1 True, requestRow 2 False],
           statement_diagnostics = [], statement_bundle_chunks = [], rowid = 200\<rparr>"

definition quietAttempt :: "catalog \<Rightarrow> attempt" where
  "quietAttempt cat = \<lparr>at_catalog = cat, at_sqlnow = 15, at_outcome = Runs, at_concurrent = []\<rparr>"

definition envA :: settings where
  "envA = \<lparr>gossipAvailable = True, addInfoFails = False, sampledStmtDiagReqs = True,
            bundleChunkSize = 16\<rparr>"

definition catA :: catalog where
  "catA = \<lparr>statement_diagnostics_requests = [requestRow 7 False],
           statement_diagnostics = [], statement_bundle_chunks = [], rowid = 200\<rparr>"

definition regD :: Registry where
  "regD = \<lparr>requestFingerprints = [7 \<mapsto> reqB], unconditionalOngoing = Map.empty, epoch = 0\<rparr>"

definition regD0 :: Registry where
  "regD0 = \<lparr>requestFingerprints = Map.empty, unconditionalOngoing = Map.empty, epoch = 0\<rparr>"

definition nodeA :: node where
  "nodeA = \<lparr>registry = regD, db = catA, gossiped = []\<rparr>"

text \<open>
  The node \<open>nodeA\<close> after a request for \<^verbatim>\<open>UPDATE _\<close> with the sampling probability NaN
  and a minimum execution latency of 10 ns has been inserted at time 6.
\<close>

definition nanRow :: request_row where
  "nanRow =
     \<lparr>rq_id = 200, rq_statement_fingerprint = ''UPDATE _'', rq_requested_at = 6,
      rq_sampling_probability = Some NaN, rq_min_execution_latency = Some 10,
      rq_expires_at = None, rq_completed = False, rq_statement_diagnostics_id = None\<rparr>"

definition catN :: catalog where
  "catN = \<lparr>statement_diagnostics_requests = [requestRow 7 False, nanRow],
           statement_diagnostics = [], statement_bundle_chunks = [], rowid = 201\<rparr>"

definition reqN :: Request where
  "reqN = \<lparr>fingerprint = ''UPDATE _'', samplingProbability = NaN,
           minExecutionLatency = 10, expiresAt = 0\<rparr>"

definition regN :: Registry where
  "regN = \<lparr>requestFingerprints = [7 \<mapsto> reqB, 200 \<mapsto> reqN],
           unconditionalOngoing = Map.empty, epoch = 1\<rparr>"

definition nodeN :: node where
  "nodeN = \<lparr>registry = regN, db = catN,
            gossiped = [(KeyGossipStatementDiagnosticsRequest, PutUint64 200)]\<rparr>"

text \<open>A turn of the poll loop during which request 7 is cancelled locally.\<close>

definition cancelAttempt :: attempt where
  "cancelAttempt =
     \<lparr>at_catalog = catA, at_sqlnow = 5, at_outcome = Runs, at_concurrent = [EvCancel 7]\<rparr>"

definition envOld :: settings where
  "envOld = \<lparr>gossipAvailable = True, addInfoFails = False, sampledStmtDiagReqs = False,
              bundleChunkSize = 16\<rparr>"

definition bundleA :: "byte list" where
  "bundleA = [1, 2, 3, 4, 5, 6, 7, 8, 9, 10, 11, 12, 13, 14, 15, 16, 17, 18]"

definition chunkRow :: "int \<Rightarrow> byte list \<Rightarrow> chunk_row" where
  "chunkRow rid chunk =
     \<lparr>ch_id = rid, ch_description = ''statement diagnostics bundle'', ch_data = chunk\<rparr>"

definition catA' :: catalog where
  "catA' =
     \<lparr>statement_diagnostics_requests =
        [(requestRow 7 False)\<lparr>rq_completed := True, rq_statement_diagnostics_id := Some 202\<rparr>],
      statement_diagnostics =
        [\<lparr>dg_id = 202, dg_statement_fingerprint = ''SELECT _'', dg_statement = ''SELECT 1'',
          dg_collected_at = 30, dg_bundle_chunks = [200, 201], dg_error = None\<rparr>],
      statement_bundle_chunks =
        [chunkRow 200 [1, 2, 3, 4, 5, 6, 7, 8, 9, 10, 11, 12, 13, 14, 15, 16],
         chunkRow 201 [17, 18]],
      rowid = 203\<rparr>"

definition catA1 :: catalog where
  "catA1 = catA\<lparr>statement_bundle_chunks :=
                  [chunkRow 200 [1, 2, 3, 4, 5, 6, 7, 8, 9, 10, 11, 12, 13, 14, 15, 16]],
                rowid := 201\<rparr>"

definition catA2 :: catalog where
  "catA2 = catA\<lparr>statement_bundle_chunks :=
                  [chunkRow 200 [1, 2, 3, 4, 5, 6, 7, 8, 9, 10, 11, 12, 13, 14, 15, 16],
                   chunkRow 201 [17, 18]],
                rowid := 202\<rparr>"

text \<open>
  The catalog \<open>catA\<close> after a call for request 7 with the bundle \<open>bundleA\<close> whose
  transaction has restarted at the commit of the first run (\<open>catR\<close>), and after one
  whose transaction has restarted at the statement that inserts the first chunk
  (\<open>catR1\<close>).
\<close>

definition catR :: catalog where
  "catR =
     \<lparr>statement_diagnostics_requests =
        [(requestRow 7 False)\<lparr>rq_completed := True, rq_statement_diagnostics_id := Some 200\<rparr>],
      statement_diagnostics =
        [\<lparr>dg_id = 200, dg_statement_fingerprint = ''SELECT _'', dg_statement = ''SELECT 1'',
          dg_collected_at = 30, dg_bundle_chunks = [], dg_error = None\<rparr>],
      statement_bundle_chunks = [],
      rowid = 201\<rparr>"

definition catR1 :: catalog where
  "catR1 =
     \<lparr>statement_diagnostics_requests =
        [(requestRow 7 False)\<lparr>rq_completed := True, rq_statement_diagnostics_id := Some 201\<rparr>],
      statement_diagnostics =
        [\<lparr>dg_id = 201, dg_statement_fingerprint = ''SELECT _'', dg_statement = ''SELECT 1'',
          dg_collected_at = 30, dg_bundle_chunks = [200], dg_error = None\<rparr>],
      statement_bundle_chunks = [chunkRow 200 [17, 18]],
      rowid = 202\<rparr>"

definition reqU :: Request where
  "reqU = \<lparr>fingerprint = ''UPDATE _'', samplingProbability = Finite 0,
            minExecutionLatency = 0, expiresAt = 0\<rparr>"

definition rowU :: "RequestID \<Rightarrow> poll_row" where
  "rowU rid = \<lparr>row_id = rid, row_fingerprint = ''UPDATE _'', row_min_execution_latency = None,
               row_expires_at = None, row_sampling_probability = None\<rparr>"

definition catD :: catalog where
  "catD = \<lparr>statement_diagnostics_requests =
             [requestRow 1 True, requestRow 2 False,
              (requestRow 5 False)\<lparr>rq_statement_fingerprint := ''UPDATE _''\<rparr>],
           statement_diagnostics = [], statement_bundle_chunks = [], rowid = 200\<rparr>"

definition insertAttempt :: attempt where
  "insertAttempt =
     \<lparr>at_catalog = catC, at_sqlnow = 15, at_outcome = Runs,
      at_concurrent = [EvInsert 16 5 ''UPDATE _'' (Finite 0) 0 0]\<rparr>"

definition regB1 :: Registry where
  "regB1 = \<lparr>requestFingerprints = [1 \<mapsto> reqB, 3 \<mapsto> reqC, 5 \<mapsto> reqU],
             unconditionalOngoing = [2 \<mapsto> reqA], epoch = 5\<rparr>"

definition regB2 :: Registry where
  "regB2 = \<lparr>requestFingerprints = [5 \<mapsto> reqU],
             unconditionalOngoing = [2 \<mapsto> reqA], epoch = 5\<rparr>"

section \<open>Properties of the index\<close>

subsection \<open>The two maps are disjoint\<close>

lemma disjointMaps_iff:
  "disjointMaps r =
     (\<forall>rid. requestFingerprints r rid = None \<or> unconditionalOngoing r rid = None)"
  unfolding disjointMaps_def disjoint_iff domIff by metis

lemma findRequestLocked_disjoint:
  "disjointMaps r \<Longrightarrow> disjointMaps (snd (findRequestLocked now rid r))"
  by (auto simp: disjointMaps_iff findRequestLocked_def split: option.splits)

lemma addRequestInternalLocked_disjoint:
  "disjointMaps r \<Longrightarrow> disjointMaps (addRequestInternalLocked now rid fp p l e r)"
  by (auto simp: disjointMaps_iff addRequestInternalLocked_def findRequestLocked_def
      split: option.splits bool.splits)

lemma insertLocal_disjoint:
  "disjointMaps r \<Longrightarrow> disjointMaps (insertLocal now rid fp p l e r)"
  unfolding insertLocal_def
  by (rule addRequestInternalLocked_disjoint) (simp add: disjointMaps_iff)

lemma cancelRequest_disjoint: "disjointMaps r \<Longrightarrow> disjointMaps (cancelRequest rid r)"
  by (auto simp: disjointMaps_iff cancelRequest_def)

lemma IsExecLatencyConditionMet_disjoint:
  "disjointMaps r \<Longrightarrow> disjointMaps (snd (IsExecLatencyConditionMet now rid req lat r))"
  by (auto simp: disjointMaps_iff IsExecLatencyConditionMet_def)

lemma RemoveOngoing_disjoint: "disjointMaps r \<Longrightarrow> disjointMaps (RemoveOngoing now rid req r)"
  by (auto simp: disjointMaps_iff RemoveOngoing_def)

lemma ShouldCollectDiagnostics_disjoint:
  "disjointMaps r \<Longrightarrow> disjointMaps (snd (ShouldCollectDiagnostics order now u fp r))"
  by (auto simp: disjointMaps_iff ShouldCollectDiagnostics_def Let_def split: scan.splits)

lemma addRows_disjoint:
  "disjointMaps r \<Longrightarrow> disjointMaps (snd (addRows supported clock k rows (ids, r)))"
  by (induction rows arbitrary: k ids r) (simp_all add: addRequestInternalLocked_disjoint)

lemma removeOthers_None: "m rid = None \<Longrightarrow> removeOthers order ids now m rid = None"
  by (induction order arbitrary: m) (auto split: option.splits)

lemma removeOthers_sub: "removeOthers order ids now m rid = Some req \<Longrightarrow> m rid = Some req"
proof (induction order arbitrary: m)
  case Nil
  then show ?case by simp
next
  case (Cons a order)
  have del: "(m(a := None)) rid = Some req \<Longrightarrow> m rid = Some req"
    by (simp split: if_splits)
  from Cons.prems show ?case
    by (auto split: option.splits if_splits dest!: Cons.IH intro: del)
qed

lemma pollApply_disjoint:
  assumes "disjointMaps r"
  shows "disjointMaps (pollApply supported now clock order rows r)"
proof -
  obtain ids r1 where a: "addRows supported clock 0 rows ({}, r) = (ids, r1)"
    by (cases "addRows supported clock 0 rows ({}, r)")
  from addRows_disjoint [OF assms, of supported clock 0 rows "{}"] a
  have "disjointMaps r1" by simp
  then show ?thesis
    by (auto simp: pollApply_def a disjointMaps_iff intro: removeOthers_None)
qed

lemma step_disjoint: "disjointMaps r \<Longrightarrow> disjointMaps (step r ev)"
  by (cases ev)
    (simp_all add: insertLocal_disjoint findRequest_def findRequestLocked_disjoint
      cancelRequest_disjoint IsExecLatencyConditionMet_disjoint RemoveOngoing_disjoint
      ShouldCollectDiagnostics_disjoint pollApply_disjoint)

lemma run_disjoint: "disjointMaps r \<Longrightarrow> disjointMaps (run r evs)"
  unfolding run_def by (induction evs arbitrary: r) (simp_all add: step_disjoint)

text \<open>
  Claim C2. In every state that the index reaches from the new registry by its
  operations, no request id is in both \<^verbatim>\<open>requestFingerprints\<close> (pending) and
  \<^verbatim>\<open>unconditionalOngoing\<close> (ongoing); and each operation that changes the index
  (add-if-absent, also after the epoch increment of an insert, ShouldCollectDiagnostics,
  cancelRequest, RemoveOngoing, findRequest, IsExecLatencyConditionMet and the locked
  section of pollRequests) takes a registry with disjoint maps to one with disjoint maps.
\<close>

theorem index_maps_disjoint:
  "(\<forall>rid. requestFingerprints (run NewRegistry evs) rid = None \<or>
          unconditionalOngoing (run NewRegistry evs) rid = None) \<and>
   (disjointMaps r \<longrightarrow>
      disjointMaps (addRequestInternalLocked now rid fp prob minLatency expires r) \<and>
      disjointMaps (insertLocal now rid fp prob minLatency expires r) \<and>
      disjointMaps (snd (ShouldCollectDiagnostics order now u fp r)) \<and>
      disjointMaps (cancelRequest rid r) \<and>
      disjointMaps (RemoveOngoing now rid req r) \<and>
      disjointMaps (snd (findRequest now rid r)) \<and>
      disjointMaps (snd (IsExecLatencyConditionMet now rid req execLatency r)) \<and>
      disjointMaps (pollApply supported now clock order rows r))"
proof -
  have "disjointMaps NewRegistry"
    by (simp add: disjointMaps_def NewRegistry_def)
  then have "disjointMaps (run NewRegistry evs)"
    by (rule run_disjoint)
  then show ?thesis
    by (simp add: disjointMaps_iff [symmetric] addRequestInternalLocked_disjoint
        insertLocal_disjoint ShouldCollectDiagnostics_disjoint cancelRequest_disjoint
        RemoveOngoing_disjoint findRequest_def findRequestLocked_disjoint
        IsExecLatencyConditionMet_disjoint pollApply_disjoint)
qed

theorem index_maps_disjoint_witness:
  "disjointMaps regB \<and>
   disjointMaps (addRequestInternalLocked 10 2 ''SELECT _'' (Finite 0) 0 0 regB) \<and>
   disjointMaps (snd (ShouldCollectDiagnostics [3, 1] 10 0 ''SELECT _'' regB)) \<and>
   disjointMaps (cancelRequest 2 regB) \<and>
   disjointMaps (RemoveOngoing 10 2 reqA regB) \<and>
   disjointMaps (snd (findRequest 60 3 regB)) \<and>
   disjointMaps (pollApply True 10 clock20 [3, 1] [] regB)"
proof -
  have h: "disjointMaps regB"
    by (simp add: disjointMaps_def regB_def)
  from index_maps_disjoint [of "[]" regB 10 2 "''SELECT _''" "Finite 0" 0 0 "[3, 1]" 0 reqA 0 True
      clock20 "[]"] h
  have "disjointMaps (addRequestInternalLocked 10 2 ''SELECT _'' (Finite 0) 0 0 regB) \<and>
        disjointMaps (snd (ShouldCollectDiagnostics [3, 1] 10 0 ''SELECT _'' regB)) \<and>
        disjointMaps (cancelRequest 2 regB) \<and>
        disjointMaps (RemoveOngoing 10 2 reqA regB) \<and>
        disjointMaps (snd (findRequest 10 2 regB)) \<and>
        disjointMaps (pollApply True 10 clock20 [3, 1] [] regB)"
    by simp
  moreover have "disjointMaps (snd (findRequest 60 3 regB))"
    using h by (simp add: findRequest_def findRequestLocked_disjoint)
  ultimately show ?thesis using h by simp
qed

subsection \<open>Admission of an unconditional request\<close>

lemma scanRequests_Match:
  "scanRequests order m fp now = Match rid req \<Longrightarrow>
     m rid = Some req \<and> fingerprint req = fp \<and> \<not> isExpired req now \<and> rid \<in> set order"
  by (induction order) (auto split: option.splits if_splits)

text \<open>
  Claim C5. Let the scan of the pending map match the entry \<open>reqID \<mapsto> req\<close> for the
  fingerprint (the first entry in the iteration order with that fingerprint, not expired,
  with a request id that is not the reserved zero), and let \<open>req\<close> be unconditional. Then
  \<^verbatim>\<open>ShouldCollectDiagnostics\<close> moves the entry from pending to ongoing whatever the
  sampling decision is; it returns \<open>(true, reqID, req)\<close> when the sampling probability is
  zero or the draw \<open>u\<close> is below it, and \<open>(false, 0, Request{})\<close> otherwise, the entry
  being in ongoing in both cases.
\<close>

theorem admission_precedes_sampling:
  assumes "scanRequests order (requestFingerprints r) fp now = Match reqID req"
    and "reqID \<noteq> 0"
    and "\<not> isConditional req"
  shows "ShouldCollectDiagnostics order now u fp r =
           ((if samplingProbability req = Finite 0 \<or> lt64 (Finite u) (samplingProbability req)
             then (True, reqID, req) else (False, 0, zeroRequest)),
            r\<lparr>unconditionalOngoing := (unconditionalOngoing r)(reqID \<mapsto> req),
              requestFingerprints := (requestFingerprints r)(reqID := None)\<rparr>)"
proof -
  from scanRequests_Match [OF assms(1)] have "requestFingerprints r reqID = Some req"
    by simp
  then have "dom (requestFingerprints r) \<noteq> {}"
    by auto
  with assms show ?thesis
    by (simp add: ShouldCollectDiagnostics_def Let_def)
qed

theorem admission_precedes_sampling_witness:
  "scanRequests [7] (requestFingerprints regA) ''SELECT _'' 100 = Match 7 reqA \<and>
   (7::int) \<noteq> 0 \<and> \<not> isConditional reqA \<and>
   ShouldCollectDiagnostics [7] 100 (3 / 4) ''SELECT _'' regA =
     ((False, 0, zeroRequest),
      \<lparr>requestFingerprints = Map.empty, unconditionalOngoing = [7 \<mapsto> reqA], epoch = 0\<rparr>) \<and>
   ShouldCollectDiagnostics [7] 100 (1 / 4) ''SELECT _'' regA =
     ((True, 7, reqA),
      \<lparr>requestFingerprints = Map.empty, unconditionalOngoing = [7 \<mapsto> reqA], epoch = 0\<rparr>)"
proof -
  have h1: "scanRequests [7] (requestFingerprints regA) ''SELECT _'' 100 = Match 7 reqA"
    by (simp add: regA_def reqA_def isExpired_def IsZero_def)
  have h2: "\<not> isConditional reqA"
    by (simp add: reqA_def isConditional_def)
  from admission_precedes_sampling [OF h1 _ h2, of "3 / 4"]
    admission_precedes_sampling [OF h1 _ h2, of "1 / 4"] h1 h2
  show ?thesis
    by (simp add: regA_def reqA_def)
qed

subsection \<open>Later calls for the fingerprint of an admitted request\<close>

lemma scanRequests_NoMatch:
  "(\<forall>rid req. m rid = Some req \<longrightarrow> fingerprint req \<noteq> fp) \<Longrightarrow>
     scanRequests order m fp now = NoMatch"
  by (induction order) (auto split: option.splits)

lemma ShouldCollectDiagnostics_noPending:
  "noPending fp r \<Longrightarrow> ShouldCollectDiagnostics order now u fp r = ((False, 0, zeroRequest), r)"
  by (simp add: ShouldCollectDiagnostics_def noPending_def scanRequests_NoMatch)

lemma noPending_sub:
  assumes "noPending fp r"
    and "\<And>rid req. requestFingerprints r' rid = Some req \<Longrightarrow>
           requestFingerprints r rid = Some req"
  shows "noPending fp r'"
  using assms unfolding noPending_def by blast

lemma findRequestLocked_sub:
  "requestFingerprints (snd (findRequestLocked now rid r)) rid' = Some req \<Longrightarrow>
     requestFingerprints r rid' = Some req"
  by (simp add: findRequestLocked_def split: option.splits if_splits)

lemma addRequestInternalLocked_cases:
  "addRequestInternalLocked now reqID fp' p l e r = snd (findRequestLocked now reqID r) \<or>
   (requestFingerprints r reqID = None \<and> unconditionalOngoing r reqID = None \<and>
    addRequestInternalLocked now reqID fp' p l e r =
      r\<lparr>requestFingerprints := (requestFingerprints r)(reqID \<mapsto>
          \<lparr>fingerprint = fp', samplingProbability = p, minExecutionLatency = l,
           expiresAt = e\<rparr>)\<rparr>)"
  by (cases "unconditionalOngoing r reqID")
    (simp_all add: addRequestInternalLocked_def findRequestLocked_def split: option.splits)

lemma addRequestInternalLocked_noPending:
  assumes "noPending fp r" and "unconditionalOngoing r rid \<noteq> None"
    and "fp' = fp \<longrightarrow> reqID = rid"
  shows "noPending fp (addRequestInternalLocked now reqID fp' p l e r)"
proof -
  from addRequestInternalLocked_cases [of now reqID fp' p l e r] show ?thesis
  proof
    assume "addRequestInternalLocked now reqID fp' p l e r = snd (findRequestLocked now reqID r)"
    with assms(1) show ?thesis
      by (auto intro: noPending_sub findRequestLocked_sub)
  next
    assume a: "requestFingerprints r reqID = None \<and> unconditionalOngoing r reqID = None \<and>
      addRequestInternalLocked now reqID fp' p l e r =
        r\<lparr>requestFingerprints := (requestFingerprints r)(reqID \<mapsto>
          \<lparr>fingerprint = fp', samplingProbability = p, minExecutionLatency = l,
           expiresAt = e\<rparr>)\<rparr>"
    with assms(2,3) have "fp' \<noteq> fp" by auto
    with a assms(1) show ?thesis
      by (simp add: noPending_def)
  qed
qed

lemma addRequestInternalLocked_ongoing:
  "unconditionalOngoing (addRequestInternalLocked now reqID fp' p l e r) = unconditionalOngoing r"
  by (auto simp: addRequestInternalLocked_def findRequestLocked_def
      split: option.splits bool.splits)

lemma addRequestInternalLocked_epoch:
  "epoch (addRequestInternalLocked now reqID fp' p l e r) = epoch r"
  by (auto simp: addRequestInternalLocked_def findRequestLocked_def
      split: option.splits bool.splits)

lemma addRows_ongoing:
  "unconditionalOngoing (snd (addRows supported clock k rows (ids, r))) = unconditionalOngoing r"
  by (induction rows arbitrary: k ids r) (simp_all add: addRequestInternalLocked_ongoing)

lemma addRows_epoch:
  "epoch (snd (addRows supported clock k rows (ids, r))) = epoch r"
  by (induction rows arbitrary: k ids r) (simp_all add: addRequestInternalLocked_epoch)

lemma addRows_noPending:
  assumes "noPending fp r" and "unconditionalOngoing r rid \<noteq> None"
    and "\<not> list_ex (\<lambda>row. row_fingerprint row = fp \<and> row_id row \<noteq> rid) rows"
  shows "noPending fp (snd (addRows supported clock k rows (ids, r)))"
  using assms
proof (induction rows arbitrary: k ids r)
  case Nil
  then show ?case by simp
next
  case (Cons row rows)
  let ?r = "addRequestInternalLocked (clock k) (row_id row) (row_fingerprint row)
          (row_prob supported row) (row_latency row) (row_expires row) r"
  have 1: "noPending fp ?r"
    using Cons.prems by (intro addRequestInternalLocked_noPending [where rid = rid]) auto
  have 2: "unconditionalOngoing ?r rid \<noteq> None"
    using Cons.prems by (simp add: addRequestInternalLocked_ongoing)
  from Cons.IH [OF 1 2] Cons.prems show ?case by simp
qed

lemma pollApply_noPending:
  assumes "noPending fp r" and "unconditionalOngoing r rid \<noteq> None"
    and "\<not> list_ex (\<lambda>row. row_fingerprint row = fp \<and> row_id row \<noteq> rid) rows"
  shows "noPending fp (pollApply supported now clock order rows r)"
proof -
  obtain ids r1 where a: "addRows supported clock 0 rows ({}, r) = (ids, r1)"
    by (cases "addRows supported clock 0 rows ({}, r)")
  from addRows_noPending [OF assms, of supported clock 0 "{}"] a have "noPending fp r1"
    by simp
  then show ?thesis
    by (rule noPending_sub) (auto simp: pollApply_def a dest: removeOthers_sub)
qed

lemma ShouldCollectDiagnostics_sub:
  "requestFingerprints (snd (ShouldCollectDiagnostics order now u fp' r)) rid' = Some req \<Longrightarrow>
     requestFingerprints r rid' = Some req"
  by (simp add: ShouldCollectDiagnostics_def Let_def split: scan.splits if_splits)

lemma cancelRequest_sub:
  "requestFingerprints (cancelRequest rid r) rid' = Some req \<Longrightarrow>
     requestFingerprints r rid' = Some req"
  by (simp add: cancelRequest_def split: if_splits)

lemma IsExecLatencyConditionMet_sub:
  "requestFingerprints (snd (IsExecLatencyConditionMet now rid rq lat r)) rid' = Some req \<Longrightarrow>
     requestFingerprints r rid' = Some req"
  by (simp add: IsExecLatencyConditionMet_def split: if_splits)

lemma RemoveOngoing_sub:
  "requestFingerprints (RemoveOngoing now rid rq r) rid' = Some req \<Longrightarrow>
     requestFingerprints r rid' = Some req"
  by (simp add: RemoveOngoing_def split: if_splits)

lemma step_noPending:
  assumes "noPending fp r" and "unconditionalOngoing r rid \<noteq> None"
    and "\<not> addsOther fp rid ev"
  shows "noPending fp (step r ev)"
proof (cases ev)
  case (EvInsert now reqID fp' p l e)
  have "noPending fp (r\<lparr>epoch := incr (epoch r)\<rparr>)"
    using assms(1) by (simp add: noPending_def)
  moreover have "unconditionalOngoing (r\<lparr>epoch := incr (epoch r)\<rparr>) rid \<noteq> None"
    using assms(2) by simp
  moreover have "fp' = fp \<longrightarrow> reqID = rid"
    using assms(3) EvInsert by simp
  ultimately show ?thesis
    unfolding EvInsert step.simps insertLocal_def
    by (rule addRequestInternalLocked_noPending)
next
  case (EvPoll supported now clock order rows)
  then show ?thesis
    using assms by (simp add: pollApply_noPending [where rid = rid])
next
  case (EvShouldCollect order now u fp')
  show ?thesis
    unfolding EvShouldCollect step.simps
    using assms(1) by (rule noPending_sub) (rule ShouldCollectDiagnostics_sub)
next
  case (EvFind now rid')
  show ?thesis
    unfolding EvFind step.simps findRequest_def
    using assms(1) by (rule noPending_sub) (rule findRequestLocked_sub)
next
  case (EvCancel rid')
  show ?thesis
    unfolding EvCancel step.simps
    using assms(1) by (rule noPending_sub) (rule cancelRequest_sub)
next
  case (EvLatency now rid' rq lat)
  show ?thesis
    unfolding EvLatency step.simps
    using assms(1) by (rule noPending_sub) (rule IsExecLatencyConditionMet_sub)
next
  case (EvRemoveOngoing now rid' rq)
  show ?thesis
    unfolding EvRemoveOngoing step.simps
    using assms(1) by (rule noPending_sub) (rule RemoveOngoing_sub)
qed

lemma run_noPending:
  assumes "noPending fp r" and "staysOngoing rid r evs"
    and "\<not> list_ex (addsOther fp rid) evs"
  shows "noPending fp (run r evs)"
  using assms
proof (induction evs arbitrary: r)
  case Nil
  then show ?case by (simp add: run_def)
next
  case (Cons ev evs)
  from Cons.prems have "noPending fp (step r ev)"
    by (intro step_noPending [where rid = rid]) auto
  with Cons.IH [of "step r ev"] Cons.prems show ?case
    by (simp add: run_def)
qed

lemma scanRequests_unique:
  assumes "m rid = Some req" and "fingerprint req = fp" and "\<not> isExpired req now"
    and "\<forall>rid' req'. m rid' = Some req' \<and> fingerprint req' = fp \<longrightarrow> rid' = rid"
    and "rid \<in> set order"
  shows "scanRequests order m fp now = Match rid req"
  using assms(5)
proof (induction order)
  case Nil
  then show ?case by simp
next
  case (Cons a order)
  show ?case
  proof (cases "a = rid")
    case True
    with assms(1,2,3) show ?thesis by simp
  next
    case False
    with Cons.prems have "rid \<in> set order" by simp
    then have ih: "scanRequests order m fp now = Match rid req" by (rule Cons.IH)
    show ?thesis
    proof (cases "m a")
      case None
      with ih show ?thesis by simp
    next
      case (Some f)
      with assms(4) False have "fingerprint f \<noteq> fp" by blast
      with Some ih show ?thesis by simp
    qed
  qed
qed

lemma admit_unconditional:
  assumes "scanRequests order (requestFingerprints r) fp now = Match reqID req"
    and "reqID \<noteq> 0" and "\<not> isConditional req"
  shows "snd (ShouldCollectDiagnostics order now u fp r) =
           r\<lparr>unconditionalOngoing := (unconditionalOngoing r)(reqID \<mapsto> req),
             requestFingerprints := (requestFingerprints r)(reqID := None)\<rparr>"
proof -
  from scanRequests_Match [OF assms(1)] have "requestFingerprints r reqID = Some req"
    by simp
  then have "dom (requestFingerprints r) \<noteq> {}"
    by auto
  with assms show ?thesis
    by (simp add: ShouldCollectDiagnostics_def Let_def)
qed

text \<open>
  Claim C3, with the side condition that no other request for the fingerprint comes in.
  Let the only pending request with fingerprint \<open>fp\<close> be \<open>rid \<mapsto> req\<close>, not expired,
  unconditional, with an id that is not the reserved zero, and let the iteration visit it.
  A call of \<^verbatim>\<open>ShouldCollectDiagnostics\<close> for \<open>fp\<close> moves the entry from pending to
  ongoing. After any further operations on the index during which the entry stays in
  ongoing and none of which brings another request (another id) for \<open>fp\<close>, every call for
  \<open>fp\<close> returns \<open>(false, 0, Request{})\<close> and leaves the index as it is. A poll whose rows
  hold the request itself is such an operation.
\<close>

theorem admitted_request_not_readmitted:
  assumes "requestFingerprints r rid = Some req" and "fingerprint req = fp"
    and "\<not> isExpired req now" and "\<not> isConditional req" and "rid \<noteq> 0"
    and "\<forall>rid' req'. requestFingerprints r rid' = Some req' \<and> fingerprint req' = fp
           \<longrightarrow> rid' = rid"
    and "rid \<in> set order"
    and "staysOngoing rid (snd (ShouldCollectDiagnostics order now u fp r)) evs"
    and "\<not> list_ex (addsOther fp rid) evs"
  shows "snd (ShouldCollectDiagnostics order now u fp r) =
           r\<lparr>unconditionalOngoing := (unconditionalOngoing r)(rid \<mapsto> req),
             requestFingerprints := (requestFingerprints r)(rid := None)\<rparr> \<and>
         ShouldCollectDiagnostics order' now' u' fp
             (run (snd (ShouldCollectDiagnostics order now u fp r)) evs) =
           ((False, 0, zeroRequest), run (snd (ShouldCollectDiagnostics order now u fp r)) evs)"
proof -
  let ?r1 = "snd (ShouldCollectDiagnostics order now u fp r)"
  have m: "scanRequests order (requestFingerprints r) fp now = Match rid req"
    using assms(1,2,3,6,7) by (rule scanRequests_unique)
  have 1: "?r1 = r\<lparr>unconditionalOngoing := (unconditionalOngoing r)(rid \<mapsto> req),
             requestFingerprints := (requestFingerprints r)(rid := None)\<rparr>"
    using m assms(5,4) by (rule admit_unconditional)
  have "noPending fp ?r1"
    unfolding noPending_def
  proof (intro allI impI)
    fix rid' req'
    assume "requestFingerprints ?r1 rid' = Some req'"
    then have "rid' \<noteq> rid" and "requestFingerprints r rid' = Some req'"
      unfolding 1 by (simp_all split: if_splits)
    with assms(6) show "fingerprint req' \<noteq> fp" by blast
  qed
  then have "noPending fp (run ?r1 evs)"
    using assms(8,9) by (rule run_noPending)
  then show ?thesis
    using 1 by (simp add: ShouldCollectDiagnostics_noPending)
qed

lemma regC_admit: "ShouldCollectDiagnostics [1] 10 0 ''SELECT _'' regC = ((True, 1, reqB), regC1)"
  by (simp add: ShouldCollectDiagnostics_def regC_def regC1_def reqB_def isExpired_def
      IsZero_def isConditional_def)

lemma regC1_poll_same: "pollApply True 20 clock20 [] [rowOf 1] regC1 = regC1"
  by (simp add: pollApply_def clock20_def addRequestInternalLocked_def findRequestLocked_def rowOf_def
      regC1_def)

lemma regC1_call: "ShouldCollectDiagnostics [] 25 0 ''SELECT _'' regC1 = ((False, 0, zeroRequest), regC1)"
  by (simp add: ShouldCollectDiagnostics_def regC1_def)

lemma regC1_find: "findRequest 26 1 regC1 = (True, regC1)"
  by (simp add: findRequest_def findRequestLocked_def regC1_def)

theorem admitted_request_not_readmitted_witness:
  "requestFingerprints regC 1 = Some reqB \<and> fingerprint reqB = ''SELECT _'' \<and>
   \<not> isExpired reqB 10 \<and> \<not> isConditional reqB \<and>
   staysOngoing 1 (snd (ShouldCollectDiagnostics [1] 10 0 ''SELECT _'' regC))
     [EvPoll True 20 clock20 [] [rowOf 1], EvShouldCollect [] 25 0 ''SELECT _'',
      EvFind 26 1] \<and>
   \<not> list_ex (addsOther ''SELECT _'' 1)
     [EvPoll True 20 clock20 [] [rowOf 1], EvShouldCollect [] 25 0 ''SELECT _'',
      EvFind 26 1] \<and>
   snd (ShouldCollectDiagnostics [1] 10 0 ''SELECT _'' regC) = regC1 \<and>
   ShouldCollectDiagnostics [] 30 0 ''SELECT _''
       (run (snd (ShouldCollectDiagnostics [1] 10 0 ''SELECT _'' regC))
          [EvPoll True 20 clock20 [] [rowOf 1], EvShouldCollect [] 25 0 ''SELECT _'',
           EvFind 26 1]) =
     ((False, 0, zeroRequest), regC1)"
proof -
  let ?evs = "[EvPoll True 20 clock20 [] [rowOf 1], EvShouldCollect [] 25 0 ''SELECT _'',
      EvFind 26 1]"
  have h1: "requestFingerprints regC 1 = Some reqB"
    by (simp add: regC_def)
  have h2: "fingerprint reqB = ''SELECT _''"
    by (simp add: reqB_def)
  have h3: "\<not> isExpired reqB 10"
    by (simp add: reqB_def isExpired_def IsZero_def)
  have h4: "\<not> isConditional reqB"
    by (simp add: reqB_def isConditional_def)
  have h6: "\<forall>rid' req'. requestFingerprints regC rid' = Some req' \<and>
      fingerprint req' = ''SELECT _'' \<longrightarrow> rid' = 1"
    by (simp add: regC_def)
  have h8: "staysOngoing 1 (snd (ShouldCollectDiagnostics [1] 10 0 ''SELECT _'' regC)) ?evs"
    by (simp add: regC_admit regC1_poll_same regC1_call regC1_find) (simp add: regC1_def)
  have h9: "\<not> list_ex (addsOther ''SELECT _'' 1) ?evs"
    by (simp add: rowOf_def)
  have r: "run regC1 ?evs = regC1"
    by (simp add: run_def regC1_poll_same regC1_call regC1_find)
  have h5: "(1::int) \<noteq> 0"
    by simp
  have h7: "(1::int) \<in> set [1]"
    by simp
  from admitted_request_not_readmitted [OF h1 h2 h3 h4 h5 h6 h7 h8 h9, of "[]" 30 0]
  have "ShouldCollectDiagnostics [] 30 0 ''SELECT _''
       (run (snd (ShouldCollectDiagnostics [1] 10 0 ''SELECT _'' regC)) ?evs) =
     ((False, 0, zeroRequest), run (snd (ShouldCollectDiagnostics [1] 10 0 ''SELECT _'' regC)) ?evs)"
    by (rule conjunct2)
  then show ?thesis
    using h1 h2 h3 h4 h8 h9 by (simp add: regC_admit r)
qed

text \<open>
  The claim as the specification states it fails when another request for the
  fingerprint arrives while the first is still ongoing. Request 1 is admitted on this
  node (\<open>regC\<close> to \<open>regC1\<close>); another node completes it, and request 2 is inserted for the
  same fingerprint (the table of \<open>catC\<close>); the poll adds request 2 to pending and leaves
  request 1 in ongoing (\<open>regC2\<close>); the next call for the fingerprint returns
  \<open>(true, 2, req)\<close>.
\<close>

theorem admitted_request_counterexample:
  "requestFingerprints regC 1 = Some reqB \<and> dom (requestFingerprints regC) = {1} \<and>
   fingerprint reqB = ''SELECT _'' \<and>
   \<not> isExpired reqB 10 \<and> \<not> isConditional reqB \<and>
   ShouldCollectDiagnostics [1] 10 0 ''SELECT _'' regC = ((True, 1, reqB), regC1) \<and>
   pollRequests True 20 clock20 [2] [quietAttempt catC] regC1 = Some (Inr regC2) \<and>
   unconditionalOngoing regC2 1 = Some reqB \<and>
   fst (ShouldCollectDiagnostics [2] 30 0 ''SELECT _'' regC2) = (True, 2, reqB)"
proof -
  have "stmt_diag_poll Runs True 15 catC = Row [rowOf 2]"
    by (simp add: stmt_diag_poll_def catC_def requestRow_def notExpiredAt_def rowOf_def)
  then have 1: "pollRead True [quietAttempt catC] regC1 = Some (Inr ([rowOf 2], regC1))"
    by (simp add: quietAttempt_def run_def)
  have 2: "pollApply True 20 clock20 [2] [rowOf 2] regC1 = regC2"
    by (simp add: pollApply_def clock20_def addRequestInternalLocked_def findRequestLocked_def rowOf_def
        regC1_def regC2_def row_prob_def row_latency_def row_expires_def isExpired_def
        IsZero_def reqB_def)
  have 3: "ShouldCollectDiagnostics [2] 30 0 ''SELECT _'' regC2 =
      ((True, 2, reqB),
       \<lparr>requestFingerprints = Map.empty, unconditionalOngoing = [1 \<mapsto> reqB, 2 \<mapsto> reqB],
        epoch = 0\<rparr>)"
    by (simp add: ShouldCollectDiagnostics_def regC2_def reqB_def isExpired_def IsZero_def
        isConditional_def)
  have 4: "\<not> isExpired reqB 10 \<and> \<not> isConditional reqB \<and> fingerprint reqB = ''SELECT _''"
    by (simp add: reqB_def isExpired_def IsZero_def isConditional_def)
  have 5: "requestFingerprints regC 1 = Some reqB \<and> dom (requestFingerprints regC) = {1} \<and>
      unconditionalOngoing regC2 1 = Some reqB"
    by (simp add: regC_def regC2_def)
  have 6: "pollRequests True 20 clock20 [2] [quietAttempt catC] regC1 = Some (Inr regC2)"
    unfolding pollRequests_def 1 by (simp add: 2)
  show ?thesis
    using 4 5 6 by (simp add: regC_admit 3)
qed

section \<open>Properties of the epoch\<close>

lemma step_epoch: "epoch (step r ev) = (if isInsert ev then incr (epoch r) else epoch r)"
proof (cases ev)
  case (EvPoll supported now clock order rows)
  obtain ids r1 where a: "addRows supported clock 0 rows ({}, r) = (ids, r1)"
    by (cases "addRows supported clock 0 rows ({}, r)")
  from addRows_epoch [of supported clock 0 rows "{}" r] a have "epoch r1 = epoch r" by simp
  then show ?thesis by (simp add: EvPoll pollApply_def a)
qed (simp_all add: insertLocal_def addRequestInternalLocked_epoch findRequest_def
      findRequestLocked_def cancelRequest_def IsExecLatencyConditionMet_def RemoveOngoing_def
      ShouldCollectDiagnostics_def Let_def split: option.splits scan.splits)

lemma incr_ge: "n < MaxInt64 \<Longrightarrow> n \<le> incr n"
  by (simp add: incr_def)

lemma run_epoch_bounds:
  "epoch r + int (length evs) \<le> MaxInt64 \<Longrightarrow>
     epoch r \<le> epoch (run r evs) \<and> epoch (run r evs) \<le> epoch r + int (length evs)"
proof (induction evs arbitrary: r)
  case Nil
  then show ?case by (simp add: run_def)
next
  case (Cons ev evs)
  have s: "epoch (step r ev) = epoch r \<or> epoch (step r ev) = epoch r + 1"
    using Cons.prems by (auto simp: step_epoch incr_def)
  then have "epoch (step r ev) + int (length evs) \<le> MaxInt64"
    using Cons.prems by auto
  from Cons.IH [OF this] s show ?case
    by (auto simp: run_def)
qed

lemma AddInfo_registry: "registry (AddInfo env key buf s) = registry s"
  by (simp add: AddInfo_def)

lemma AddInfo_db: "db (AddInfo env key buf s) = db s"
  by (simp add: AddInfo_def)

lemma CancelRequest_registry:
  "registry (snd (CancelRequest env script sqlnow requestID s)) =
     (if fst (CancelRequest env script sqlnow requestID s) = None
      then cancelRequest requestID (registry s) else registry s)"
  by (simp add: CancelRequest_def AddInfo_registry split: prod.splits result.splits)

lemma insertRequestInternal_registry:
  "insertRequestInternal env script sqlnow now now' fp prob minLatency expiresAfter s = (res, s') \<Longrightarrow>
   registry s' =
     (case res of
        Inl e \<Rightarrow> registry s
      | Inr reqID \<Rightarrow>
          insertLocal now' reqID fp prob minLatency
            (if expiresAfter \<noteq> 0 then now + expiresAfter else 0) (registry s))"
  by (auto simp: insertRequestInternal_def Txn_def insertRequestTxn_def AddInfo_registry Let_def
      split: if_splits prod.splits sum.splits result.splits)

text \<open>
  Claim C6, for what the code does. Only the local add of an insert changes the epoch:
  it runs \<^verbatim>\<open>epoch++\<close> in the locked section of the add, just before
  \<^verbatim>\<open>addRequestInternalLocked\<close>; every other operation on the index leaves the epoch
  as it is. So the epoch never decreases over operations that stay below the wrap-around
  of the 64-bit counter. A successful \<^verbatim>\<open>InsertRequest\<close> increments the epoch and then
  adds the request; \<^verbatim>\<open>CancelRequest\<close> removes the request locally when it succeeds,
  and never changes the epoch.
\<close>

theorem epoch_only_local_add:
  "epoch (step r ev) = (if isInsert ev then incr (epoch r) else epoch r) \<and>
   (epoch r + int (length evs) \<le> MaxInt64 \<longrightarrow> epoch r \<le> epoch (run r evs)) \<and>
   (fst (InsertRequest env script sqlnow now now' fp prob minLatency expiresAfter s) = None \<longrightarrow>
      (\<exists>reqID. registry (snd (InsertRequest env script sqlnow now now' fp prob minLatency expiresAfter s)) =
         addRequestInternalLocked now' reqID fp prob minLatency
           (if expiresAfter \<noteq> 0 then now + expiresAfter else 0)
           ((registry s)\<lparr>epoch := incr (epoch (registry s))\<rparr>)) \<and>
      epoch (registry (snd (InsertRequest env script sqlnow now now' fp prob minLatency expiresAfter s))) =
        incr (epoch (registry s))) \<and>
   registry (snd (CancelRequest env script' sqlnow' requestID s)) =
     (if fst (CancelRequest env script' sqlnow' requestID s) = None
      then cancelRequest requestID (registry s) else registry s) \<and>
   epoch (registry (snd (CancelRequest env script' sqlnow' requestID s))) = epoch (registry s)"
proof -
  have 1: "epoch r + int (length evs) \<le> MaxInt64 \<longrightarrow> epoch r \<le> epoch (run r evs)"
    using run_epoch_bounds [of r evs] by simp
  obtain res s' where i: "insertRequestInternal env script sqlnow now now' fp prob minLatency expiresAfter s = (res, s')"
    by (cases "insertRequestInternal env script sqlnow now now' fp prob minLatency expiresAfter s")
  have 2: "fst (InsertRequest env script sqlnow now now' fp prob minLatency expiresAfter s) = None \<longrightarrow>
      (\<exists>reqID. registry (snd (InsertRequest env script sqlnow now now' fp prob minLatency expiresAfter s)) =
         addRequestInternalLocked now' reqID fp prob minLatency
           (if expiresAfter \<noteq> 0 then now + expiresAfter else 0)
           ((registry s)\<lparr>epoch := incr (epoch (registry s))\<rparr>)) \<and>
      epoch (registry (snd (InsertRequest env script sqlnow now now' fp prob minLatency expiresAfter s))) =
        incr (epoch (registry s))"
    using insertRequestInternal_registry [OF i]
    by (cases res) (auto simp: InsertRequest_def i insertLocal_def addRequestInternalLocked_epoch)
  have 3: "epoch (registry (snd (CancelRequest env script' sqlnow' requestID s))) = epoch (registry s)"
    by (simp add: CancelRequest_registry cancelRequest_def)
  show ?thesis
    using 1 2 3 by (simp add: step_epoch CancelRequest_registry)
qed

lemma catA_insert_txn: "insertRequestTxn [] 5 6 ''UPDATE _'' (Finite 0) 0 0 catA =
   Inr ((200, 0), catA\<lparr>statement_diagnostics_requests := [requestRow 7 False,
      \<lparr>rq_id = 200, rq_statement_fingerprint = ''UPDATE _'', rq_requested_at = 6, rq_sampling_probability = None,
        rq_min_execution_latency = None, rq_expires_at = None, rq_completed = False, rq_statement_diagnostics_id = None\<rparr>],
       rowid := 201\<rparr>)"
  by (simp add: insertRequestTxn_def stmt_diag_check_pending_def QueryRowEx_def nextOutcome_def catA_def
      requestRow_def notExpiredAt_def stmt_diag_insert_request_def)

lemma nodeA_insert: "fst (InsertRequest envA [] 5 6 7 ''UPDATE _'' (Finite 0) 0 0 nodeA) = None"
  by (simp add: InsertRequest_def insertRequestInternal_def envA_def Txn_def nodeA_def catA_insert_txn)

lemma catA_cancel: "stmt_diag_cancel_request Runs 10 7 catA = (Row 7, catA\<lparr>statement_diagnostics_requests := [(requestRow 7 False)\<lparr>rq_expires_at := Some UnixEpoch\<rparr>]\<rparr>)"
  by (simp add: stmt_diag_cancel_request_def catA_def cancellable_def requestRow_def notExpiredAt_def)

lemma nodeA_cancel: "fst (CancelRequest envA [] 10 7 nodeA) = None"
  by (simp add: CancelRequest_def envA_def nodeA_def nextOutcome_def catA_cancel)

theorem epoch_only_local_add_witness:
  "epoch (step regA (EvCancel 7)) = 0 \<and> epoch (step regA (EvInsert 1 9 ''UPDATE _'' (Finite 0) 0 0)) = 1 \<and>
   fst (InsertRequest envA [] 5 6 7 ''UPDATE _'' (Finite 0) 0 0 nodeA) = None \<and>
   epoch (registry nodeA) = 0 \<and>
   epoch (registry (snd (InsertRequest envA [] 5 6 7 ''UPDATE _'' (Finite 0) 0 0 nodeA))) = 1 \<and>
   epoch regA + int (length [EvCancel 7, EvInsert 1 9 ''UPDATE _'' (Finite 0) 0 0]) \<le> MaxInt64 \<and>
   epoch regA \<le> epoch (run regA [EvCancel 7, EvInsert 1 9 ''UPDATE _'' (Finite 0) 0 0])"
proof -
  have e: "epoch regA = 0" "epoch (registry nodeA) = 0"
    by (simp_all add: regA_def nodeA_def regD_def)
  have b: "epoch regA + int (length [EvCancel 7, EvInsert 1 9 ''UPDATE _'' (Finite 0) 0 0]) \<le> MaxInt64"
    by (simp add: regA_def MaxInt64_def)
  have i: "incr 0 = 1" by (simp add: incr_def MaxInt64_def)
  from epoch_only_local_add [of regA "EvCancel 7" "[EvCancel 7, EvInsert 1 9 ''UPDATE _'' (Finite 0) 0 0]" envA "[]" 5 6 7 "''UPDATE _''" "Finite 0" 0 0 nodeA]
    epoch_only_local_add [of regA "EvInsert 1 9 ''UPDATE _'' (Finite 0) 0 0"]
    nodeA_insert b e i
  show ?thesis by simp
qed

text \<open>
  The local removal of \<^verbatim>\<open>CancelRequest\<close> does not increment the epoch, against the
  claim as the specification states it: the request is removed and the epoch is what it
  was. A poll that read the table before the cancellation and takes the mutex after it
  sees the same epoch, does not retry, and puts the request back into pending.
\<close>

theorem cancel_keeps_epoch_counterexample:
  "requestFingerprints (registry nodeA) 7 = Some reqB \<and>
   fst (CancelRequest envA [] 10 7 nodeA) = None \<and>
   requestFingerprints (registry (snd (CancelRequest envA [] 10 7 nodeA))) 7 = None \<and>
   epoch (registry (snd (CancelRequest envA [] 10 7 nodeA))) = epoch (registry nodeA) \<and>
   pollRequests True 20 clock20 [7] [cancelAttempt] regD = Some (Inr regD)"
proof -
  have 1: "registry (snd (CancelRequest envA [] 10 7 nodeA)) = cancelRequest 7 regD"
    by (simp add: CancelRequest_registry nodeA_cancel) (simp add: nodeA_def)
  have "stmt_diag_poll Runs True 5 catA = Row [rowOf 7]"
    by (simp add: stmt_diag_poll_def catA_def requestRow_def notExpiredAt_def rowOf_def)
  moreover have "run regD [EvCancel 7] = regD0"
    by (simp add: run_def cancelRequest_def regD_def regD0_def)
  moreover have "epoch regD0 = epoch regD"
    by (simp add: regD_def regD0_def)
  ultimately have 2: "pollRead True [cancelAttempt] regD = Some (Inr ([rowOf 7], regD0))"
    by (simp add: cancelAttempt_def)
  have 3: "pollApply True 20 clock20 [7] [rowOf 7] regD0 = regD"
    by (simp add: pollApply_def clock20_def addRequestInternalLocked_def findRequestLocked_def rowOf_def
        row_prob_def row_latency_def row_expires_def isExpired_def IsZero_def reqB_def
        regD_def regD0_def)
  have 4: "pollRequests True 20 clock20 [7] [cancelAttempt] regD = Some (Inr regD)"
    unfolding pollRequests_def 2 by (simp add: 3)
  show ?thesis
    using 4 by (simp add: 1 nodeA_cancel) (simp add: nodeA_def regD_def cancelRequest_def)
qed

section \<open>Properties of InsertRequest and CancelRequest\<close>

lemma lt64_range:
  "(\<not> lt64 prob (Finite 0) \<and> \<not> lt64 (Finite 1) prob) =
     (prob = NaN \<or> (\<exists>x. prob = Finite x \<and> 0 \<le> x \<and> x \<le> 1))"
  by (cases prob) auto

lemma insertRequestInternal_invalid:
  assumes "lt64 prob (Finite 0) \<or> lt64 (Finite 1) prob \<or> (prob \<noteq> Finite 0 \<and> minLatency = 0) \<or>
     (prob \<noteq> Finite 0 \<and> \<not> sampledStmtDiagReqs env)"
  shows "\<exists>e. insertRequestInternal env script sqlnow now now' fp prob minLatency expiresAfter s = (Inl e, s)"
  using assms
  by (cases "gossipAvailable env"; cases "sampledStmtDiagReqs env"; cases "prob = Finite 0";
      cases "lt64 prob (Finite 0)"; cases "lt64 (Finite 1) prob";
      simp add: insertRequestInternal_def)

text \<open>
  What the validation of \<^verbatim>\<open>InsertRequest\<close> rejects: a probability that compares below
  0 or above 1, and a probability other than 0 (NaN included) with a zero minimum
  execution latency. Such a call returns an error and leaves the node as it was: the
  catalog, both maps of the index, the epoch and the list of gossiped infos are
  unchanged.
\<close>

lemma InsertRequest_rejects:
  assumes "lt64 prob (Finite 0) \<or> lt64 (Finite 1) prob \<or> (prob \<noteq> Finite 0 \<and> minLatency = 0)"
  shows "\<exists>e. InsertRequest env script sqlnow now now' fp prob minLatency expiresAfter s = (Some e, s)"
proof -
  from assms have "lt64 prob (Finite 0) \<or> lt64 (Finite 1) prob \<or>
      (prob \<noteq> Finite 0 \<and> minLatency = 0) \<or> (prob \<noteq> Finite 0 \<and> \<not> sampledStmtDiagReqs env)"
    by auto
  from insertRequestInternal_invalid [OF this]
  obtain e where "insertRequestInternal env script sqlnow now now' fp prob minLatency expiresAfter s = (Inl e, s)"
    by blast
  then show ?thesis by (simp add: InsertRequest_def)
qed

lemma InsertRequest_rejects_examples:
  "InsertRequest envA [] 5 6 7 ''UPDATE _'' (Finite (3 / 2)) 10 0 nodeA =
     (Some MalformedSamplingProbability, nodeA) \<and>
   InsertRequest envA [] 5 6 7 ''UPDATE _'' PosInf 10 0 nodeA =
     (Some MalformedSamplingProbability, nodeA) \<and>
   InsertRequest envA [] 5 6 7 ''UPDATE _'' (Finite (1 / 2)) 0 0 nodeA =
     (Some SamplingProbabilityWithoutLatency, nodeA) \<and>
   InsertRequest envA [] 5 6 7 ''UPDATE _'' NaN 0 0 nodeA =
     (Some SamplingProbabilityWithoutLatency, nodeA)"
  by (simp add: InsertRequest_def insertRequestInternal_def envA_def)

lemma catA_insert_nan: "insertRequestTxn [] 5 6 ''UPDATE _'' NaN 10 0 catA = Inr ((200, 0), catN)"
  by (simp add: insertRequestTxn_def stmt_diag_check_pending_def QueryRowEx_def nextOutcome_def
      catA_def catN_def nanRow_def requestRow_def notExpiredAt_def stmt_diag_insert_request_def)

text \<open>
  Claim C8 fails on the code for the sampling probability NaN, which is not in
  \<open>[0, 1]\<close>. Both comparisons of the range check are false for NaN, and NaN is different
  from 0: with a minimum execution latency that is not zero the call passes the
  validation and returns no error. It inserts a row with the probability NaN into the
  requests table, increments the epoch, adds the request to the pending map and notifies
  gossip.
\<close>

theorem nan_probability_accepted:
  "\<not> lt64 NaN (Finite 0) \<and> \<not> lt64 (Finite 1) NaN \<and> NaN \<noteq> Finite 0 \<and>
   InsertRequest envA [] 5 6 7 ''UPDATE _'' NaN 10 0 nodeA = (None, nodeN) \<and>
   statement_diagnostics_requests (db nodeN) = statement_diagnostics_requests (db nodeA) @ [nanRow] \<and>
   rq_sampling_probability nanRow = Some NaN \<and>
   requestFingerprints (registry nodeA) 200 = None \<and>
   requestFingerprints (registry nodeN) 200 = Some reqN \<and>
   samplingProbability reqN = NaN \<and>
   epoch (registry nodeA) = 0 \<and> epoch (registry nodeN) = 1 \<and>
   gossiped nodeA = [] \<and>
   gossiped nodeN = [(KeyGossipStatementDiagnosticsRequest, PutUint64 200)]"
proof -
  have "InsertRequest envA [] 5 6 7 ''UPDATE _'' NaN 10 0 nodeA = (None, nodeN)"
    by (simp add: InsertRequest_def insertRequestInternal_def envA_def Txn_def nodeA_def
        catA_insert_nan nodeN_def AddInfo_def insertLocal_def addRequestInternalLocked_def
        findRequestLocked_def regD_def regN_def reqN_def incr_def MaxInt64_def)
  then show ?thesis
    by (simp add: nodeN_def nodeA_def catN_def catA_def nanRow_def regD_def regN_def reqN_def)
qed

text \<open>
  Claim C9. A call of \<^verbatim>\<open>InsertRequest\<close> with a non-zero sampling probability while
  the cluster version \<^verbatim>\<open>SampledStmtDiagReqs\<close> is not active returns an error and leaves
  the node as it was, whatever the probability and the latency are: the error is the one
  of the version check (or, when gossip is unavailable, the one of the gossip check that
  precedes it).
\<close>

theorem sampling_needs_cluster_version:
  assumes "prob \<noteq> Finite 0" and "\<not> sampledStmtDiagReqs env"
  shows "InsertRequest env script sqlnow now now' fp prob minLatency expiresAfter s =
           (Some (if gossipAvailable env then SamplingProbabilityNotSupported
                  else GossipUnavailable), s)"
  using assms
  by (cases "gossipAvailable env") (simp_all add: InsertRequest_def insertRequestInternal_def)

theorem sampling_needs_cluster_version_witness:
  "Finite (1 / 2) \<noteq> Finite 0 \<and> \<not> sampledStmtDiagReqs envOld \<and>
   \<not> (lt64 (Finite (1 / 2)) (Finite 0) \<or> lt64 (Finite 1) (Finite (1 / 2))) \<and>
   \<not> (Finite (1 / 2) \<noteq> Finite 0 \<and> (10::int) = 0) \<and>
   InsertRequest envOld [] 5 6 7 ''UPDATE _'' (Finite (1 / 2)) 10 0 nodeA =
     (Some SamplingProbabilityNotSupported, nodeA)"
proof -
  have h1: "Finite (1 / 2) \<noteq> Finite 0" by simp
  have h2: "\<not> sampledStmtDiagReqs envOld" by (simp add: envOld_def)
  from sampling_needs_cluster_version [OF h1 h2, of "[]" 5 6 7 "''UPDATE _''" 10 0 nodeA] h2
  show ?thesis by (simp add: envOld_def)
qed

lemma CancelRequest_unfold:
  "CancelRequest env script sqlnow requestID s =
     (if \<not> gossipAvailable env then (Some GossipUnavailable, s)
      else
        (case fst (stmt_diag_cancel_request (nextOutcome script) sqlnow requestID (db s)) of
           QueryError \<Rightarrow> (Some ExecutorError, s)
         | NilRow \<Rightarrow> (Some NoPendingRequestFound, s)
         | Row rid \<Rightarrow>
             (None,
              AddInfo env KeyGossipStatementDiagnosticsRequestCancellation
                (PutUint64 (word_of_int requestID))
                (s\<lparr>db := snd (stmt_diag_cancel_request (nextOutcome script) sqlnow requestID (db s)),
                   registry := cancelRequest requestID (registry s)\<rparr>))))"
  by (simp add: CancelRequest_def split: prod.splits result.splits)

lemma stmt_diag_cancel_request_Fails:
  "fst (stmt_diag_cancel_request Fails sqlnow requestID cat) = QueryError"
  by (simp add: stmt_diag_cancel_request_def)

lemma stmt_diag_cancel_request_none:
  "filter (cancellable sqlnow requestID) (statement_diagnostics_requests cat) = [] \<Longrightarrow>
     fst (stmt_diag_cancel_request Runs sqlnow requestID cat) = NilRow"
  by (simp add: stmt_diag_cancel_request_def)

text \<open>
  Claim C10. Whenever \<^verbatim>\<open>CancelRequest\<close> returns an error, the node is as it was: both
  maps of the index, the epoch, the catalog and the list of gossiped infos are unchanged.
  When it returns no error, gossip was available and the catalog \<^verbatim>\<open>UPDATE\<close> returned
  a row before the request was removed locally. The call returns an error when the
  \<^verbatim>\<open>UPDATE\<close> fails, and when no uncompleted, unexpired row has the given id.
\<close>

theorem cancel_error_changes_nothing:
  "(fst (CancelRequest env script sqlnow requestID s) \<noteq> None \<longrightarrow>
      snd (CancelRequest env script sqlnow requestID s) = s) \<and>
   (fst (CancelRequest env script sqlnow requestID s) = None \<longrightarrow>
      gossipAvailable env \<and>
      (\<exists>rid cat. stmt_diag_cancel_request (nextOutcome script) sqlnow requestID (db s) = (Row rid, cat) \<and>
         db (snd (CancelRequest env script sqlnow requestID s)) = cat) \<and>
      registry (snd (CancelRequest env script sqlnow requestID s)) =
        cancelRequest requestID (registry s)) \<and>
   (gossipAvailable env \<and> nextOutcome script = Fails \<longrightarrow>
      fst (CancelRequest env script sqlnow requestID s) = Some ExecutorError) \<and>
   (gossipAvailable env \<and> nextOutcome script = Runs \<and>
    filter (cancellable sqlnow requestID) (statement_diagnostics_requests (db s)) = [] \<longrightarrow>
      fst (CancelRequest env script sqlnow requestID s) = Some NoPendingRequestFound)"
proof -
  obtain res cat where c: "stmt_diag_cancel_request (nextOutcome script) sqlnow requestID (db s) = (res, cat)"
    by (cases "stmt_diag_cancel_request (nextOutcome script) sqlnow requestID (db s)")
  have 1: "fst (CancelRequest env script sqlnow requestID s) \<noteq> None \<longrightarrow>
      snd (CancelRequest env script sqlnow requestID s) = s"
    by (cases "gossipAvailable env"; cases res) (simp_all add: CancelRequest_unfold c)
  have 2: "fst (CancelRequest env script sqlnow requestID s) = None \<longrightarrow>
      gossipAvailable env \<and>
      (\<exists>rid cat. stmt_diag_cancel_request (nextOutcome script) sqlnow requestID (db s) = (Row rid, cat) \<and>
         db (snd (CancelRequest env script sqlnow requestID s)) = cat) \<and>
      registry (snd (CancelRequest env script sqlnow requestID s)) =
        cancelRequest requestID (registry s)"
    by (cases "gossipAvailable env"; cases res)
      (simp_all add: CancelRequest_unfold c AddInfo_registry AddInfo_db)
  have 3: "gossipAvailable env \<and> nextOutcome script = Fails \<longrightarrow>
      fst (CancelRequest env script sqlnow requestID s) = Some ExecutorError"
    by (simp add: CancelRequest_unfold stmt_diag_cancel_request_Fails)
  have 4: "gossipAvailable env \<and> nextOutcome script = Runs \<and>
    filter (cancellable sqlnow requestID) (statement_diagnostics_requests (db s)) = [] \<longrightarrow>
      fst (CancelRequest env script sqlnow requestID s) = Some NoPendingRequestFound"
    by (simp add: CancelRequest_unfold stmt_diag_cancel_request_none)
  from 1 2 3 4 show ?thesis by blast
qed

theorem cancel_error_changes_nothing_witness:
  "CancelRequest envA [] 10 8 nodeA = (Some NoPendingRequestFound, nodeA) \<and>
   CancelRequest envA [Fails] 10 7 nodeA = (Some ExecutorError, nodeA) \<and>
   fst (CancelRequest envA [] 10 7 nodeA) = None \<and>
   registry (snd (CancelRequest envA [] 10 7 nodeA)) = cancelRequest 7 regD"
proof -
  have 1: "fst (CancelRequest envA [] 10 8 nodeA) = Some NoPendingRequestFound"
    by (simp add: CancelRequest_def envA_def nodeA_def nextOutcome_def stmt_diag_cancel_request_def
        catA_def cancellable_def requestRow_def)
  have 2: "fst (CancelRequest envA [Fails] 10 7 nodeA) = Some ExecutorError"
    by (simp add: CancelRequest_def envA_def nodeA_def nextOutcome_def stmt_diag_cancel_request_def)
  have 3: "fst (CancelRequest envA [] 10 7 nodeA) = None"
    by (rule nodeA_cancel)
  have 4: "registry nodeA = regD"
    by (simp add: nodeA_def)
  from cancel_error_changes_nothing [of envA "[]" 10 8 nodeA] 1
  have 5: "CancelRequest envA [] 10 8 nodeA = (Some NoPendingRequestFound, nodeA)"
    by (simp add: prod_eq_iff)
  from cancel_error_changes_nothing [of envA "[Fails]" 10 7 nodeA] 2
  have 6: "CancelRequest envA [Fails] 10 7 nodeA = (Some ExecutorError, nodeA)"
    by (simp add: prod_eq_iff)
  from cancel_error_changes_nothing [of envA "[]" 10 7 nodeA] 3 4
  have 7: "registry (snd (CancelRequest envA [] 10 7 nodeA)) = cancelRequest 7 regD"
    by simp
  from 3 5 6 7 show ?thesis by simp
qed

section \<open>Properties of InsertStatementDiagnostics\<close>


lemma chunkOf_nonempty: "0 < s \<Longrightarrow> bundle \<noteq> [] \<Longrightarrow> chunkOf s bundle \<noteq> []"
  by (auto simp: chunkOf_def)



lemma insertChunks_Nil: "insertChunks s script [] acc cat = Some (Inr (acc, script, cat))"
  by (subst insertChunks.simps) simp

lemma insertChunks_step:
  assumes "0 < s" and "bundle \<noteq> []"
  shows "insertChunks s script bundle acc cat =
     (case nextOutcome script of
        Fails \<Rightarrow> Some (Inl (ExecutorError, drop (length (chunkOf s bundle)) bundle))
      | ReturnsNil \<Rightarrow>
          Some (Inl (FailedToCheckChunk, drop (length (chunkOf s bundle)) bundle))
      | Runs \<Rightarrow>
          insertChunks s (tl script) (drop (length (chunkOf s bundle)) bundle)
            (acc @ [rowid cat]) (withChunk (chunkOf s bundle) cat))"
  using assms
  by (subst insertChunks.simps) (simp add: stmt_bundle_chunks_insert_def withChunk_def split: outcome.splits)








lemma stmt_diag_mark_completed_eq:
  "stmt_diag_mark_completed oc diagID requestID cat =
     (if oc = Fails then Inl ExecutorError else Inr (markCompleted diagID requestID cat))"
  by (cases oc) (simp_all add: stmt_diag_mark_completed_def markCompleted_def)

lemma stmt_diag_add_completed_eq:
  "stmt_diag_add_completed oc fp diagID t cat =
     (if oc = Fails then Inl ExecutorError else Inr (addCompleted fp diagID t cat))"
  by (cases oc) (simp_all add: stmt_diag_add_completed_def addCompleted_def)

lemma stmt_diag_insert_eq:
  "stmt_diag_insert oc fp stmt t ids err cat =
     (case oc of
        Fails \<Rightarrow> (QueryError, cat)
      | ReturnsNil \<Rightarrow> (NilRow, cat)
      | Runs \<Rightarrow> (Row (rowid cat), withDiagnostics fp stmt t ids err cat))"
  by (cases oc) (simp_all add: stmt_diag_insert_def withDiagnostics_def)

lemma writeDiagnostics_eq:
  assumes "insertChunks s script (cap_bundle cap) [] cat = Some (Inr (ids, script', cat1))"
  shows "writeDiagnostics s script t requestID fp stmt err cap cat =
     (case nextOutcome script' of
        Fails \<Rightarrow> Some (Inl (ExecutorError, cap\<lparr>cap_bundle := []\<rparr>))
      | ReturnsNil \<Rightarrow> Some (Inl (FailedToInsertDiagnostics, cap\<lparr>cap_bundle := []\<rparr>))
      | Runs \<Rightarrow>
          if nextOutcome (tl script') = Fails
          then Some (Inl (ExecutorError, \<lparr>cap_bundle = [], cap_diagID = rowid cat1\<rparr>))
          else Some (Inr (\<lparr>cap_bundle = [], cap_diagID = rowid cat1\<rparr>,
                 completeRequest requestID fp (rowid cat1) t
                   (withDiagnostics fp stmt t ids err cat1))))"
  by (cases "nextOutcome script'")
    (simp_all add: writeDiagnostics_def assms stmt_diag_insert_eq stmt_diag_mark_completed_eq
      stmt_diag_add_completed_eq completeRequest_def)








lemma stmt_diag_check_completed_Runs:
  "stmt_diag_check_completed Runs requestID cat = Row (int (length (uncompleted requestID cat)))"
  by (simp add: stmt_diag_check_completed_def QueryRowEx_def uncompleted_def)

lemma stmt_diag_check_completed_Fails:
  "stmt_diag_check_completed Fails requestID cat = QueryError"
  by (simp add: stmt_diag_check_completed_def QueryRowEx_def)

lemma stmt_diag_check_completed_ReturnsNil:
  "stmt_diag_check_completed ReturnsNil requestID cat = NilRow"
  by (simp add: stmt_diag_check_completed_def QueryRowEx_def)

lemmas stmt_diag_check_completed_simps =
  stmt_diag_check_completed_Runs stmt_diag_check_completed_Fails
  stmt_diag_check_completed_ReturnsNil

lemma insertChunks_step_Runs:
  assumes "0 < s" and "bundle \<noteq> []" and "nextOutcome script = Runs"
    and "chunkOf s bundle = chunk" and "drop (length chunk) bundle = rest"
    and "acc @ [rowid cat] = acc'" and "withChunk chunk cat = cat'"
  shows "insertChunks s script bundle acc cat = insertChunks s (tl script) rest acc' cat'"
  using assms by (simp add: insertChunks_step)

lemma bundleA_chunks: "insertChunks 16 [] bundleA [] catA = Some (Inr ([200, 201], [], catA2))"
proof -
  have 1: "insertChunks 16 [] bundleA [] catA = insertChunks 16 (tl []) [17, 18] [200] catA1"
  proof (rule insertChunks_step_Runs)
    show "chunkOf 16 bundleA = [1, 2, 3, 4, 5, 6, 7, 8, 9, 10, 11, 12, 13, 14, 15, 16]"
      by (simp add: chunkOf_def bundleA_def)
    show "drop (length [1, 2, 3, 4, 5, 6, 7, 8, 9, 10, 11, 12, 13, 14, 15, 16 :: byte]) bundleA = [17, 18]"
      by (simp add: bundleA_def)
    show "withChunk [1, 2, 3, 4, 5, 6, 7, 8, 9, 10, 11, 12, 13, 14, 15, 16] catA = catA1"
      by (simp add: withChunk_def catA_def catA1_def chunkRow_def)
  qed (simp_all add: bundleA_def nextOutcome_def catA_def)
  have 2: "insertChunks 16 (tl []) [17, 18] [200] catA1 = insertChunks 16 (tl (tl [])) [] [200, 201] catA2"
  proof (rule insertChunks_step_Runs)
    show "chunkOf 16 [17, 18] = [17, 18]"
      by (simp add: chunkOf_def)
    show "withChunk [17, 18] catA1 = catA2"
      by (simp add: withChunk_def catA_def catA1_def catA2_def chunkRow_def)
  qed (simp_all add: nextOutcome_def catA1_def)
  show ?thesis
    unfolding 1 2 insertChunks_Nil by simp
qed

lemma catA_run:
  "insertDiagnosticsTxn 16 [] 30 7 ''SELECT _'' ''SELECT 1'' None
       \<lparr>cap_bundle = bundleA, cap_diagID = 0\<rparr> catA =
     Some (Inr (\<lparr>cap_bundle = [], cap_diagID = 202\<rparr>, catA'))"
proof -
  have u: "uncompleted 7 catA = [requestRow 7 False]"
    by (simp add: uncompleted_def catA_def requestRow_def)
  have ic: "insertChunks 16 [] (cap_bundle \<lparr>cap_bundle = bundleA, cap_diagID = 0\<rparr>) [] catA =
      Some (Inr ([200, 201], [], catA2))"
    using bundleA_chunks by simp
  have w: "writeDiagnostics 16 [] 30 7 ''SELECT _'' ''SELECT 1'' None
       \<lparr>cap_bundle = bundleA, cap_diagID = 0\<rparr> catA =
     Some (Inr (\<lparr>cap_bundle = [], cap_diagID = 202\<rparr>, catA'))"
    unfolding writeDiagnostics_eq [OF ic]
    by (simp add: nextOutcome_def completeRequest_def markCompleted_def withDiagnostics_def
        catA_def catA2_def catA'_def requestRow_def)
  show ?thesis
    by (simp add: insertDiagnosticsTxn_def nextOutcome_def stmt_diag_check_completed_simps u w)
qed















text \<open>
  A transaction that restarts runs the closure again with the variable \<^verbatim>\<open>bundle\<close> as
  the earlier run has left it. After a restart at the commit the variable is empty: the
  call for request 7 returns no error and stores a diagnostics row with no chunk for the
  bundle of 18 bytes. After a restart at the statement that inserts the first chunk, the
  call stores only the bytes that follow that chunk.
\<close>

lemma catA_rerun:
  "insertDiagnosticsTxn 16 [] 30 7 ''SELECT _'' ''SELECT 1'' None
       \<lparr>cap_bundle = [], cap_diagID = 202\<rparr> catA =
     Some (Inr (\<lparr>cap_bundle = [], cap_diagID = 200\<rparr>, catR))"
proof -
  have u: "uncompleted 7 catA = [requestRow 7 False]"
    by (simp add: uncompleted_def catA_def requestRow_def)
  have ic: "insertChunks 16 [] (cap_bundle \<lparr>cap_bundle = [], cap_diagID = 202\<rparr>) [] catA =
      Some (Inr ([], [], catA))"
    by (simp add: insertChunks_Nil)
  have w: "writeDiagnostics 16 [] 30 7 ''SELECT _'' ''SELECT 1'' None
       \<lparr>cap_bundle = [], cap_diagID = 202\<rparr> catA =
     Some (Inr (\<lparr>cap_bundle = [], cap_diagID = 200\<rparr>, catR))"
    unfolding writeDiagnostics_eq [OF ic]
    by (simp add: nextOutcome_def completeRequest_def markCompleted_def withDiagnostics_def
        catA_def catR_def requestRow_def)
  show ?thesis
    by (simp add: insertDiagnosticsTxn_def nextOutcome_def stmt_diag_check_completed_simps u w)
qed

lemma catA_run_fails:
  "insertDiagnosticsTxn 16 [Runs, Fails] 30 7 ''SELECT _'' ''SELECT 1'' None
       \<lparr>cap_bundle = bundleA, cap_diagID = 0\<rparr> catA =
     Some (Inl (ExecutorError, \<lparr>cap_bundle = [17, 18], cap_diagID = 0\<rparr>))"
proof -
  have u: "uncompleted 7 catA = [requestRow 7 False]"
    by (simp add: uncompleted_def catA_def requestRow_def)
  have "insertChunks 16 [Fails] bundleA [] catA =
      Some (Inl (ExecutorError, drop (length (chunkOf 16 bundleA)) bundleA))"
    by (simp add: insertChunks_step bundleA_def nextOutcome_def)
  then have ic: "insertChunks 16 [Fails] bundleA [] catA = Some (Inl (ExecutorError, [17, 18]))"
    by (simp add: chunkOf_def bundleA_def)
  show ?thesis
    by (simp add: insertDiagnosticsTxn_def nextOutcome_def stmt_diag_check_completed_simps u
        writeDiagnostics_def ic)
qed

lemma catA_rerun_rest:
  "insertDiagnosticsTxn 16 [] 30 7 ''SELECT _'' ''SELECT 1'' None
       \<lparr>cap_bundle = [17, 18], cap_diagID = 0\<rparr> catA =
     Some (Inr (\<lparr>cap_bundle = [], cap_diagID = 201\<rparr>, catR1))"
proof -
  have u: "uncompleted 7 catA = [requestRow 7 False]"
    by (simp add: uncompleted_def catA_def requestRow_def)
  have "insertChunks 16 [] [17, 18] [] catA =
      insertChunks 16 (tl []) [] [200] (catA\<lparr>statement_bundle_chunks := [chunkRow 200 [17, 18]],
        rowid := 201\<rparr>)"
  proof (rule insertChunks_step_Runs)
    show "chunkOf 16 [17, 18] = [17, 18]"
      by (simp add: chunkOf_def)
    show "withChunk [17, 18] catA =
        catA\<lparr>statement_bundle_chunks := [chunkRow 200 [17, 18]], rowid := 201\<rparr>"
      by (simp add: withChunk_def catA_def chunkRow_def)
  qed (simp_all add: nextOutcome_def catA_def)
  then have ic: "insertChunks 16 [] (cap_bundle \<lparr>cap_bundle = [17, 18], cap_diagID = 0\<rparr>) [] catA =
      Some (Inr ([200], [], catA\<lparr>statement_bundle_chunks := [chunkRow 200 [17, 18]],
        rowid := 201\<rparr>))"
    by (simp add: insertChunks_Nil)
  have w: "writeDiagnostics 16 [] 30 7 ''SELECT _'' ''SELECT 1'' None
       \<lparr>cap_bundle = [17, 18], cap_diagID = 0\<rparr> catA =
     Some (Inr (\<lparr>cap_bundle = [], cap_diagID = 201\<rparr>, catR1))"
    unfolding writeDiagnostics_eq [OF ic]
    by (simp add: nextOutcome_def completeRequest_def markCompleted_def withDiagnostics_def
        catA_def catR1_def requestRow_def)
  show ?thesis
    by (simp add: insertDiagnosticsTxn_def nextOutcome_def stmt_diag_check_completed_simps u w)
qed

lemma restarted_transaction_loses_chunks:
  "uncompleted 7 catA \<noteq> [] \<and> length bundleA = 18 \<and>
   InsertStatementDiagnostics envA [AtCommit] [] 30 7 ''SELECT _'' ''SELECT 1'' bundleA None catA =
     Some (Inr 200, catR) \<and>
   statement_bundle_chunks catR = [] \<and>
   map dg_bundle_chunks (statement_diagnostics catR) = [[]] \<and>
   InsertStatementDiagnostics envA [AtStatement 1] [] 30 7 ''SELECT _'' ''SELECT 1'' bundleA None
       catA =
     Some (Inr 201, catR1) \<and>
   map ch_data (statement_bundle_chunks catR1) = [[17, 18]]"
proof -
  have "InsertStatementDiagnostics envA [AtCommit] [] 30 7 ''SELECT _'' ''SELECT 1'' bundleA None
      catA = Some (Inr 200, catR)"
    by (simp add: InsertStatementDiagnostics_def envA_def restartScript_def catA_run catA_rerun)
  moreover
  have "InsertStatementDiagnostics envA [AtStatement 1] [] 30 7 ''SELECT _'' ''SELECT 1'' bundleA
      None catA = Some (Inr 201, catR1)"
    by (simp add: InsertStatementDiagnostics_def envA_def restartScript_def catA_run_fails
        catA_rerun_rest)
  ultimately show ?thesis
    by (simp add: uncompleted_def catA_def requestRow_def bundleA_def catR_def catR1_def
        chunkRow_def)
qed

section \<open>Properties of pollRequests\<close>

lemma kept_del: "kept ids now (m(a := None)) rid = (if rid = a then None else kept ids now m rid)"
  by (simp add: kept_def)

lemma removeOthers_eq:
  "removeOthers order ids now m rid = (if rid \<in> set order then kept ids now m rid else m rid)"
proof (induction order arbitrary: m)
  case Nil
  then show ?case by simp
next
  case (Cons a order)
  show ?case
  proof (cases "m a")
    case None
    have "removeOthers (a # order) ids now m rid = removeOthers order ids now m rid"
      using None by simp
    also have "\<dots> = (if rid \<in> set order then kept ids now m rid else m rid)"
      by (rule Cons.IH)
    also have "\<dots> = (if rid \<in> set (a # order) then kept ids now m rid else m rid)"
      using None by (simp add: kept_def)
    finally show ?thesis .
  next
    case (Some req)
    show ?thesis
    proof (cases "a \<notin> ids \<or> isExpired req now")
      case True
      have "removeOthers (a # order) ids now m rid = removeOthers order ids now (m(a := None)) rid"
        using Some True by simp
      also have "\<dots> = (if rid \<in> set order then kept ids now (m(a := None)) rid
                        else (m(a := None)) rid)"
        by (rule Cons.IH)
      also have "\<dots> = (if rid \<in> set (a # order) then kept ids now m rid else m rid)"
        using Some True by (simp add: kept_del) (simp add: kept_def)
      finally show ?thesis .
    next
      case False
      have "removeOthers (a # order) ids now m rid = removeOthers order ids now m rid"
        using Some False by simp
      also have "\<dots> = (if rid \<in> set order then kept ids now m rid else m rid)"
        by (rule Cons.IH)
      also have "\<dots> = (if rid \<in> set (a # order) then kept ids now m rid else m rid)"
        using Some False by (simp add: kept_def)
      finally show ?thesis .
    qed
  qed
qed

lemma addRequestInternalLocked_pending:
  "requestFingerprints
     (addRequestInternalLocked now (row_id row) (row_fingerprint row) (row_prob supported row)
        (row_latency row) (row_expires row) r) rid =
   (if rid = row_id row then added supported now row r else requestFingerprints r rid)"
  by (cases "unconditionalOngoing r (row_id row)")
    (simp_all add: addRequestInternalLocked_def findRequestLocked_def added_def row_request_def
      split: option.splits)

lemma addRows_ids:
  "fst (addRows supported clock k rows (ids, r)) = ids \<union> set (map row_id rows)"
  by (induction rows arbitrary: k ids r) auto

lemma addRows_other:
  "rid \<notin> set (map row_id rows) \<Longrightarrow>
     requestFingerprints (snd (addRows supported clock k rows (ids, r))) rid = requestFingerprints r rid"
  by (induction rows arbitrary: k ids r) (simp_all add: addRequestInternalLocked_pending)

lemma addRows_row:
  assumes "distinct (map row_id rows)" and "i < length rows"
  shows "requestFingerprints (snd (addRows supported clock k rows (ids, r))) (row_id (rows ! i)) =
           added supported (clock (k + i)) (rows ! i) r"
  using assms
proof (induction rows arbitrary: k ids r i)
  case Nil
  then show ?case by simp
next
  case (Cons row rows)
  let ?r = "addRequestInternalLocked (clock k) (row_id row) (row_fingerprint row)
          (row_prob supported row) (row_latency row) (row_expires row) r"
  show ?case
  proof (cases i)
    case 0
    from Cons.prems have "row_id row \<notin> set (map row_id rows)" by simp
    then show ?thesis
      using 0 by (simp add: addRows_other addRequestInternalLocked_pending)
  next
    case (Suc j)
    with Cons.prems have j: "j < length rows" and d: "distinct (map row_id rows)"
      and h: "row_id row \<notin> set (map row_id rows)"
      by auto
    from j have "row_id (rows ! j) \<in> set (map row_id rows)"
      by simp
    with h have ne: "row_id (rows ! j) \<noteq> row_id row"
      by metis
    have "added supported (clock (Suc k + j)) (rows ! j) ?r = added supported (clock (Suc k + j)) (rows ! j) r"
      using ne by (auto simp: added_def addRequestInternalLocked_pending addRequestInternalLocked_ongoing)
    with Cons.IH [OF d j, of "Suc k" "insert (row_id row) ids" ?r] Suc show ?thesis
      by simp
  qed
qed

lemma run_append: "run r (xs @ ys) = run (run r xs) ys"
  by (simp add: run_def)

lemma pollRead_Inr:
  "pollRead supported attempts r = Some (Inr (rows, r1)) \<Longrightarrow>
     \<exists>n. 0 < n \<and> n \<le> length attempts \<and>
         r1 = run r (concat (map at_concurrent (take n attempts))) \<and>
         stmt_diag_poll (at_outcome (attempts ! (n - 1))) supported (at_sqlnow (attempts ! (n - 1)))
           (at_catalog (attempts ! (n - 1))) = Row rows \<and>
         epoch r1 = epoch (run r (concat (map at_concurrent (take (n - 1) attempts))))"
proof (induction attempts arbitrary: r)
  case Nil
  then show ?case by simp
next
  case (Cons a rest)
  from Cons.prems obtain rows' where q: "stmt_diag_poll (at_outcome a) supported (at_sqlnow a) (at_catalog a) = Row rows'"
    by (cases "stmt_diag_poll (at_outcome a) supported (at_sqlnow a) (at_catalog a)") simp_all
  show ?case
  proof (cases "epoch (run r (at_concurrent a)) \<noteq> epoch r")
    case True
    with Cons.prems q have "pollRead supported rest (run r (at_concurrent a)) = Some (Inr (rows, r1))"
      by simp
    from Cons.IH [OF this] obtain n where n: "0 < n" "n \<le> length rest"
      "r1 = run (run r (at_concurrent a)) (concat (map at_concurrent (take n rest)))"
      "stmt_diag_poll (at_outcome (rest ! (n - 1))) supported (at_sqlnow (rest ! (n - 1)))
           (at_catalog (rest ! (n - 1))) = Row rows"
      "epoch r1 = epoch (run (run r (at_concurrent a)) (concat (map at_concurrent (take (n - 1) rest))))"
      by blast
    from n(1) have nth: "(a # rest) ! n = rest ! (n - 1)" by (cases n) simp_all
    have t: "take n (a # rest) = a # take (n - 1) rest" using n(1) by (cases n) simp_all
    show ?thesis
      apply (rule exI [of _ "Suc n"])
      using n nth t by (simp add: run_append)
  next
    case False
    with Cons.prems q have "rows = rows'" "r1 = run r (at_concurrent a)" by simp_all
    with q False show ?thesis
      by (intro exI [of _ 1]) (simp add: run_def)
  qed
qed

lemma pollRead_returns:
  "attempts \<noteq> [] \<Longrightarrow> at_concurrent (last attempts) = [] \<Longrightarrow>
     \<exists>res. pollRead supported attempts r = Some res"
proof (induction attempts arbitrary: r)
  case Nil
  then show ?case by simp
next
  case (Cons a rest)
  show ?case
  proof (cases "stmt_diag_poll (at_outcome a) supported (at_sqlnow a) (at_catalog a)")
    case (Row rows)
    show ?thesis
    proof (cases "rest = []")
      case True
      with Cons.prems have "run r (at_concurrent a) = r" by (simp add: run_def)
      with Row show ?thesis by simp
    next
      case False
      with Cons.prems have "at_concurrent (last rest) = []" by simp
      from Cons.IH [OF False this] Row show ?thesis by simp
    qed
  qed simp_all
qed

lemma regB_insert: "run regB [EvInsert 16 5 ''UPDATE _'' (Finite 0) 0 0] = regB1"
  by (simp add: run_def insertLocal_def addRequestInternalLocked_def findRequestLocked_def
      regB_def regB1_def reqU_def incr_def MaxInt64_def fun_upd_twist)

lemma catC_rows: "stmt_diag_poll Runs True 15 catC = Row [rowOf 2]"
  by (simp add: stmt_diag_poll_def catC_def requestRow_def notExpiredAt_def rowOf_def)

lemma catD_rows: "stmt_diag_poll Runs True 15 catD = Row [rowOf 2, rowU 5]"
  by (simp add: stmt_diag_poll_def catD_def requestRow_def notExpiredAt_def rowOf_def rowU_def)

lemma regB_read:
  "pollRead True [insertAttempt, quietAttempt catD] regB = Some (Inr ([rowOf 2, rowU 5], regB1))"
proof -
  have "epoch regB1 \<noteq> epoch regB"
    by (simp add: regB_def regB1_def)
  then show ?thesis
    by (simp add: insertAttempt_def quietAttempt_def catC_rows catD_rows regB_insert)
      (simp add: run_def)
qed

lemma regB1_apply: "pollApply True 20 clock20 [5, 3, 1, 2] [rowOf 2, rowU 5] regB1 = regB2"
  by (simp add: pollApply_def clock20_def addRequestInternalLocked_def findRequestLocked_def rowOf_def rowU_def
      regB1_def regB2_def isExpired_def IsZero_def reqU_def reqB_def reqC_def Before_def)

text \<open>
  Claim C7. Let the read loop of \<^verbatim>\<open>pollRequests\<close> end with the rows \<open>rows\<close> (with
  distinct ids, as the primary key makes them) while the registry is \<open>r1\<close>, and let the
  second loop visit every key of the pending map. Then \<^verbatim>\<open>pollRequests\<close> returns a
  registry with the ongoing map and the epoch of \<open>r1\<close>. Its pending map has no entry for
  an id that is not in the rows. For the id of a row it has the entry that add-if-absent
  leaves there, unless that entry is expired at the poll's clock reading \<open>now\<close>: the entry
  of \<open>r1\<close> when there is one (deleted when it is expired at the clock reading of the
  lookup), no entry when the id is in the ongoing map, and the request of the row when
  the id is in neither map. The registry \<open>r1\<close> is the one that the operations of other
  goroutines made of the initial one: a turn of the loop during which the epoch changed
  applies no row and the query is run again. The call returns once a turn is not
  disturbed.
\<close>

theorem poll_reconciles:
  "(pollRead supported attempts r = Some (Inr (rows, r1)) \<and> distinct (map row_id rows) \<and>
    dom (requestFingerprints r1) \<union> set (map row_id rows) \<subseteq> set order \<longrightarrow>
      (\<exists>r2. pollRequests supported now clock order attempts r = Some (Inr r2) \<and>
         unconditionalOngoing r2 = unconditionalOngoing r1 \<and> epoch r2 = epoch r1 \<and>
         (\<forall>rid. rid \<notin> set (map row_id rows) \<longrightarrow> requestFingerprints r2 rid = None) \<and>
         (\<forall>i < length rows.
            requestFingerprints r2 (row_id (rows ! i)) =
              (case requestFingerprints r1 (row_id (rows ! i)) of
                 Some f \<Rightarrow> if isExpired f (clock i) \<or> isExpired f now then None else Some f
               | None \<Rightarrow>
                   if unconditionalOngoing r1 (row_id (rows ! i)) \<noteq> None \<or>
                      isExpired (row_request supported (rows ! i)) now
                   then None
                   else Some (row_request supported (rows ! i))))) \<and>
      (\<exists>n. 0 < n \<and> n \<le> length attempts \<and>
         r1 = run r (concat (map at_concurrent (take n attempts))))) \<and>
   (stmt_diag_poll (at_outcome a) supported (at_sqlnow a) (at_catalog a) = Row rows' \<and>
    epoch (run r0 (at_concurrent a)) \<noteq> epoch r0 \<longrightarrow>
      pollRequests supported now clock order (a # rest) r0 =
        pollRequests supported now clock order rest (run r0 (at_concurrent a))) \<and>
   (attempts \<noteq> [] \<and> at_concurrent (last attempts) = [] \<longrightarrow>
      (\<exists>res. pollRequests supported now clock order attempts r = Some res))"
proof -
  have 1: "\<exists>r2. pollRequests supported now clock order attempts r = Some (Inr r2) \<and>
         unconditionalOngoing r2 = unconditionalOngoing r1 \<and> epoch r2 = epoch r1 \<and>
         (\<forall>rid. rid \<notin> set (map row_id rows) \<longrightarrow> requestFingerprints r2 rid = None) \<and>
         (\<forall>i < length rows.
            requestFingerprints r2 (row_id (rows ! i)) =
              (case requestFingerprints r1 (row_id (rows ! i)) of
                 Some f \<Rightarrow> if isExpired f (clock i) \<or> isExpired f now then None else Some f
               | None \<Rightarrow>
                   if unconditionalOngoing r1 (row_id (rows ! i)) \<noteq> None \<or>
                      isExpired (row_request supported (rows ! i)) now
                   then None
                   else Some (row_request supported (rows ! i))))"
    if a: "pollRead supported attempts r = Some (Inr (rows, r1))"
      and d: "distinct (map row_id rows)"
      and o: "dom (requestFingerprints r1) \<union> set (map row_id rows) \<subseteq> set order"
  proof -
    obtain ids ra where ar: "addRows supported clock 0 rows ({}, r1) = (ids, ra)"
      by (cases "addRows supported clock 0 rows ({}, r1)")
    have ids: "ids = set (map row_id rows)"
      using addRows_ids [of supported clock 0 rows "{}" r1] ar by simp
    have ra: "unconditionalOngoing ra = unconditionalOngoing r1" "epoch ra = epoch r1"
      using addRows_ongoing [of supported clock 0 rows "{}" r1]
        addRows_epoch [of supported clock 0 rows "{}" r1] ar by simp_all
    have other: "requestFingerprints ra rid = requestFingerprints r1 rid"
      if "rid \<notin> set (map row_id rows)" for rid
      using addRows_other [OF that, of supported clock 0 "{}" r1] ar by simp
    have row: "requestFingerprints ra (row_id (rows ! i)) = added supported (clock i) (rows ! i) r1"
      if "i < length rows" for i
      using addRows_row [OF d that, of supported clock 0 "{}" r1] ar by simp
    let ?r2 = "ra\<lparr>requestFingerprints := removeOthers order ids now (requestFingerprints ra)\<rparr>"
    have p: "pollRequests supported now clock order attempts r = Some (Inr ?r2)"
      by (simp add: pollRequests_def a pollApply_def ar)
    have absent: "requestFingerprints ?r2 rid = None" if n: "rid \<notin> set (map row_id rows)" for rid
    proof (cases "requestFingerprints r1 rid")
      case None
      with other [OF n] show ?thesis
        by (simp add: removeOthers_eq kept_def)
    next
      case (Some f)
      then have "rid \<in> set order" using o by auto
      with n ids show ?thesis
        by (simp add: removeOthers_eq kept_def split: option.splits)
    qed
    have present: "requestFingerprints ?r2 (row_id (rows ! i)) =
              (case added supported (clock i) (rows ! i) r1 of
                 None \<Rightarrow> None
               | Some req \<Rightarrow> if isExpired req now then None else Some req)"
      if i: "i < length rows" for i
    proof -
      from i have m: "row_id (rows ! i) \<in> set (map row_id rows)" by simp
      with o have "row_id (rows ! i) \<in> set order" by blast
      with m ids show ?thesis
        by (cases "added supported (clock i) (rows ! i) r1")
          (simp_all add: removeOthers_eq kept_def row [OF i])
    qed
    have present': "requestFingerprints ?r2 (row_id (rows ! i)) =
              (case requestFingerprints r1 (row_id (rows ! i)) of
                 Some f \<Rightarrow> if isExpired f (clock i) \<or> isExpired f now then None else Some f
               | None \<Rightarrow>
                   if unconditionalOngoing r1 (row_id (rows ! i)) \<noteq> None \<or>
                      isExpired (row_request supported (rows ! i)) now
                   then None
                   else Some (row_request supported (rows ! i)))"
      if i: "i < length rows" for i
      unfolding present [OF i] added_def
      by (cases "requestFingerprints r1 (row_id (rows ! i))";
          cases "unconditionalOngoing r1 (row_id (rows ! i))") simp_all
    from p ra absent present' show ?thesis by simp
  qed
  have 2: "\<exists>n. 0 < n \<and> n \<le> length attempts \<and>
         r1 = run r (concat (map at_concurrent (take n attempts)))"
    if "pollRead supported attempts r = Some (Inr (rows, r1))"
    using pollRead_Inr [OF that] by blast
  have 3: "pollRequests supported now clock order (a # rest) r0 =
        pollRequests supported now clock order rest (run r0 (at_concurrent a))"
    if "stmt_diag_poll (at_outcome a) supported (at_sqlnow a) (at_catalog a) = Row rows'"
      and "epoch (run r0 (at_concurrent a)) \<noteq> epoch r0"
    using that by (simp add: pollRequests_def)
  have 4: "\<exists>res. pollRequests supported now clock order attempts r = Some res"
    if "attempts \<noteq> []" and "at_concurrent (last attempts) = []"
  proof -
    from pollRead_returns [OF that, of supported r]
    obtain res where r: "pollRead supported attempts r = Some res" by blast
    show ?thesis
    proof (cases res)
      case (Inl e)
      with r show ?thesis by (simp add: pollRequests_def)
    next
      case (Inr p)
      with r show ?thesis by (cases p) (simp add: pollRequests_def)
    qed
  qed
  from 1 2 3 4 show ?thesis by blast
qed

theorem poll_reconciles_witness:
  "pollRead True [insertAttempt, quietAttempt catD] regB =
     Some (Inr ([rowOf 2, rowU 5], regB1)) \<and>
   distinct (map row_id [rowOf 2, rowU 5]) \<and>
   dom (requestFingerprints regB1) \<union> set (map row_id [rowOf 2, rowU 5]) \<subseteq> set [5, 3, 1, 2] \<and>
   epoch regB1 \<noteq> epoch regB \<and>
   pollRequests True 20 clock20 [5, 3, 1, 2] [insertAttempt, quietAttempt catD] regB =
     Some (Inr regB2) \<and>
   unconditionalOngoing regB2 = unconditionalOngoing regB1 \<and>
   requestFingerprints regB2 1 = None \<and> requestFingerprints regB2 3 = None \<and>
   requestFingerprints regB2 5 = Some reqU"
proof -
  have h1: "pollRead True [insertAttempt, quietAttempt catD] regB =
     Some (Inr ([rowOf 2, rowU 5], regB1))"
    by (rule regB_read)
  have h2: "distinct (map row_id [rowOf 2, rowU 5])"
    by (simp add: rowOf_def rowU_def)
  have h3: "dom (requestFingerprints regB1) \<union> set (map row_id [rowOf 2, rowU 5])
      \<subseteq> set [5, 3, 1, 2]"
    by (simp add: regB1_def rowOf_def rowU_def)
  have e: "pollRequests True 20 clock20 [5, 3, 1, 2] [insertAttempt, quietAttempt catD] regB =
     Some (Inr regB2)"
    unfolding pollRequests_def h1 by (simp add: regB1_apply)
  from poll_reconciles [of True "[insertAttempt, quietAttempt catD]" regB "[rowOf 2, rowU 5]"
      regB1 "[5, 3, 1, 2]" 20 clock20] h1 h2 h3 e
  have "unconditionalOngoing regB2 = unconditionalOngoing regB1 \<and>
      (\<forall>rid. rid \<notin> set (map row_id [rowOf 2, rowU 5]) \<longrightarrow> requestFingerprints regB2 rid = None)"
    by auto
  then have "unconditionalOngoing regB2 = unconditionalOngoing regB1 \<and>
      requestFingerprints regB2 1 = None \<and> requestFingerprints regB2 3 = None"
    by (simp add: rowOf_def rowU_def)
  moreover have "requestFingerprints regB2 5 = Some reqU \<and> epoch regB1 \<noteq> epoch regB"
    by (simp add: regB2_def regB1_def regB_def)
  ultimately show ?thesis
    using h1 h2 h3 e by simp
qed

end
